theory Spec2Isabelle
  imports Complex_Main
begin

section \<open>JavaScript strings and numbers\<close>

text \<open>
  Strings are lists of characters with codes below 256. The characters that the regular
  expression class \<^verbatim>\<open>\s\<close> and \<^verbatim>\<open>String.prototype.trim\<close> treat as white space are, in
  that range: tab, line feed, vertical tab, form feed, carriage return, space and the
  no-break space.
\<close>

definition is_space :: "char \<Rightarrow> bool" where
  "is_space c = (of_char c \<in> {9, 10, 11, 12, 13, 32, 160 :: nat})"

definition trim :: "string \<Rightarrow> string" where
  "trim s = rev (dropWhile is_space (rev (dropWhile is_space s)))"

text \<open>
  \<^verbatim>\<open>s.split(sep)\<close> for a one-character separator, reading the string from the left with
  the piece begun so far in \<open>cur\<close>; the empty string gives \<^verbatim>\<open>['']\<close>.
\<close>

fun split_from :: "char \<Rightarrow> string \<Rightarrow> string \<Rightarrow> string list" where
  "split_from sep cur [] = [cur]"
| "split_from sep cur (c # cs) =
     (if c = sep then cur # split_from sep [] cs else split_from sep (cur @ [c]) cs)"

definition js_split :: "char \<Rightarrow> string \<Rightarrow> string list" where
  "js_split sep s = split_from sep [] s"

text \<open>\<^verbatim>\<open>xs.join(sep)\<close> on an array of strings.\<close>

fun join :: "string \<Rightarrow> string list \<Rightarrow> string" where
  "join sep [] = []"
| "join sep [x] = x"
| "join sep (x # y # ys) = x @ sep @ join sep (y # ys)"

text \<open>
  A number is written as an integer, with \<open>None\<close> for \<^verbatim>\<open>NaN\<close> where a number is computed
  from a string. An integer of magnitude up to \<open>2 ^ 53\<close> is a JavaScript number, and
  \<^verbatim>\<open>String(n)\<close> writes it in decimal. A larger integer stands for the JavaScript number
  nearest to it, the one the engine computes with; how the engine writes such a number
  (rounded digits, an exponent from \<open>10 ^ 21\<close> on) is not modelled: it is the parameter
  \<open>String_large\<close> of the functions that write a number.
\<close>

definition digit_char :: "nat \<Rightarrow> char" where
  "digit_char d = ''0123456789'' ! d"

fun show_nat :: "nat \<Rightarrow> string" where
  "show_nat n =
     (if n < 10 then [digit_char n] else show_nat (n div 10) @ [digit_char (n mod 10)])"

declare show_nat.simps [simp del]

definition show_int :: "int \<Rightarrow> string" where
  "show_int i = (if i < 0 then CHR ''-'' # show_nat (nat (- i)) else show_nat (nat i))"






section \<open>JavaScript values\<close>

text \<open>
  A value parsed from JSON. A property that is \<^verbatim>\<open>undefined\<close> is \<open>None\<close> in a
  \<open>json option\<close>. An object is the list of its keys and values. The numbers are the
  integers of magnitude up to \<open>2 ^ 53\<close>.
\<close>

datatype json =
    JNull
  | JBool bool
  | JNum int
  | JStr string
  | JArr "json list"
  | JObj "(string \<times> json) list"

fun truthy :: "json \<Rightarrow> bool" where
  "truthy JNull = False"
| "truthy (JBool b) = b"
| "truthy (JNum n) = (n \<noteq> 0)"
| "truthy (JStr s) = (s \<noteq> [])"
| "truthy (JArr xs) = True"
| "truthy (JObj kvs) = True"

text \<open>\<^verbatim>\<open>v?.key\<close>, for the keys the client reads (none of them a property of a string or an array).\<close>

fun get_prop :: "json \<Rightarrow> string \<Rightarrow> json option" where
  "get_prop (JObj kvs) key = map_of kvs key"
| "get_prop v key = None"

text \<open>\<^verbatim>\<open>a || b\<close> and \<^verbatim>\<open>a ?? b\<close> on values that may be \<^verbatim>\<open>undefined\<close>.\<close>

definition js_or :: "json option \<Rightarrow> json option \<Rightarrow> json option" where
  "js_or a b = (case a of None \<Rightarrow> b | Some v \<Rightarrow> if truthy v then Some v else b)"

definition nullish :: "json option \<Rightarrow> json option \<Rightarrow> json option" where
  "nullish a b = (case a of None \<Rightarrow> b | Some v \<Rightarrow> if v = JNull then b else Some v)"

text \<open>\<^verbatim>\<open>String(v)\<close>: an array is its elements joined by commas, \<^verbatim>\<open>null\<close> elements left empty.\<close>

fun String_json :: "json \<Rightarrow> string" where
  "String_json JNull = ''null''"
| "String_json (JBool b) = (if b then ''true'' else ''false'')"
| "String_json (JNum n) = show_int n"
| "String_json (JStr s) = s"
| "String_json (JArr xs) = join '','' (map (\<lambda>x. if x = JNull then [] else String_json x) xs)"
| "String_json (JObj kvs) = ''[object Object]''"

section \<open>JavaScript arrays: chunkArray\<close>

text \<open>
  \<^verbatim>\<open>arr.slice(start, end)\<close>: a negative index counts from the end of the array, both
  indices are clamped to the array, and an empty range gives the empty array.
\<close>

definition slice :: "'a list \<Rightarrow> int \<Rightarrow> int \<Rightarrow> 'a list" where
  "slice arr start end' =
     (let len = int (length arr);
          k = (if start < 0 then max (len + start) 0 else min start len);
          final = (if end' < 0 then max (len + end') 0 else min end' len)
      in take (nat (final - k)) (drop (nat k) arr))"

text \<open>
  The \<^verbatim>\<open>for (let i = 0; i < arr.length; i += chunkSize)\<close> loop of \<^verbatim>\<open>chunkArray\<close>, with the
  loop variable \<open>i\<close> and the output array \<open>out\<close> as arguments. The source enters the loop
  only after \<^verbatim>\<open>if (chunkSize <= 0) return [arr]\<close>; the test \<open>0 < chunkSize\<close> repeats that
  guard here, so that the recursion is total.
\<close>

function chunkLoop :: "'a list \<Rightarrow> int \<Rightarrow> int \<Rightarrow> 'a list list \<Rightarrow> 'a list list" where
  "chunkLoop arr chunkSize i out =
     (if 0 < chunkSize \<and> i < int (length arr)
      then chunkLoop arr chunkSize (i + chunkSize) (out @ [slice arr i (i + chunkSize)])
      else out)"
  by pat_completeness auto
termination
  by (relation "measure (\<lambda>(arr, chunkSize, i, out). nat (int (length arr) - i))") auto

declare chunkLoop.simps [simp del]

definition chunkArray :: "'a list \<Rightarrow> int \<Rightarrow> 'a list list" where
  "chunkArray arr chunkSize =
     (if chunkSize \<le> 0 then [arr] else chunkLoop arr chunkSize 0 [])"

section \<open>The Fever API data\<close>

text \<open>
  Interface \<^verbatim>\<open>FreshRSSItem\<close>. The field \<^verbatim>\<open>id\<close> is \<open>item_id\<close> here.
\<close>

record FreshRSSItem =
  item_id :: string
  feed_id :: int
  title :: string
  author :: "string option"
  html :: string
  url :: string
  is_saved :: int
  is_read :: int
  created_on_time :: int

text \<open>
  A field declared as an array that the code tests at run time
  (\<^verbatim>\<open>x && Array.isArray(x)\<close>): it may be missing, hold a value that is not an array, or
  hold an array.
\<close>

datatype non_array = NNull | NBool bool | NNum int | NStr string | NObject

datatype 'a array_field = Missing | NotArray non_array | Array "'a list"

fun field_truthy :: "'a array_field \<Rightarrow> bool" where
  "field_truthy Missing = False"
| "field_truthy (NotArray NNull) = False"
| "field_truthy (NotArray (NBool b)) = b"
| "field_truthy (NotArray (NNum n)) = (n \<noteq> 0)"
| "field_truthy (NotArray (NStr s)) = (s \<noteq> [])"
| "field_truthy (NotArray NObject) = True"
| "field_truthy (Array xs) = True"

fun isArray :: "'a array_field \<Rightarrow> bool" where
  "isArray (Array xs) = True"
| "isArray f = False"

fun elements :: "'a array_field \<Rightarrow> 'a list" where
  "elements (Array xs) = xs"
| "elements f = []"

text \<open>
  Interface \<^verbatim>\<open>FreshRSSResponse\<close>. Every field may be missing from the object the service
  sends (\<open>None\<close>, \<open>Missing\<close>): the code tests \<^verbatim>\<open>api_version\<close>, \<^verbatim>\<open>unread_item_ids\<close> and
  \<^verbatim>\<open>items\<close> before it uses them.
\<close>

record FreshRSSResponse =
  api_version :: "int option"
  auth :: "int option"
  last_refreshed_on_time :: "int option"
  total_items :: "int option"
  items :: "FreshRSSItem array_field"
  unread_item_ids :: "string option"
  saved_item_ids :: "string option"
  feeds :: "json list option"
  feeds_groups :: "json list option"
  groups :: "json list option"

section \<open>HTTP exchanges\<close>

text \<open>
  The body of a response, as axios hands it over in \<^verbatim>\<open>response.data\<close>: a string when the
  body is not JSON; a JSON object read through interface \<^verbatim>\<open>FreshRSSResponse\<close> (the answers
  of the Fever endpoint); any other JSON value, untyped (the Google Reader endpoints).
\<close>

datatype body = TextBody string | JsonBody json | FeverBody FreshRSSResponse

record http_request =
  req_method :: string
  req_url :: string
  req_headers :: "(string \<times> string) list"
  req_params :: "(string \<times> string) list"
  req_data :: "(string \<times> string) list"
  validateStatus_true :: bool

record http_response =
  status :: nat
  data :: body

text \<open>What the network does with one request: no response at all, or a response.\<close>

datatype outcome = NoResponse string | Response http_response

text \<open>
  The network, as the client sees it during one run: the outcomes of the exchanges still
  to come, in order, and the requests sent so far.
\<close>

record net =
  pending :: "outcome list"
  sent :: "http_request list"

datatype error_code = InternalError | MethodNotFound

text \<open>The values the code throws.\<close>

datatype js_error =
    McpError error_code string
  | Error string
  | TypeError string
  | AxiosError string "http_response option"

text \<open>
  \<^verbatim>\<open>await axios(config)\<close>: the request is sent and the next outcome is taken. Without a
  \<^verbatim>\<open>validateStatus\<close> of its own, a status outside 200..299 rejects with an \<^verbatim>\<open>AxiosError\<close>
  that carries the response; no response at all rejects with one that carries none, and
  so does a run whose list of outcomes is used up.
\<close>

definition axios :: "http_request \<Rightarrow> net \<Rightarrow> (js_error + http_response) \<times> net" where
  "axios config n =
     (case pending n of
        [] \<Rightarrow> (Inl (AxiosError ''Network Error'' None), \<lparr>pending = [], sent = sent n @ [config]\<rparr>)
      | oc # rest \<Rightarrow>
          (let n' = \<lparr>pending = rest, sent = sent n @ [config]\<rparr> in
           case oc of
             NoResponse msg \<Rightarrow> (Inl (AxiosError msg None), n')
           | Response r \<Rightarrow>
               if validateStatus_true config \<or> (200 \<le> status r \<and> status r < 300)
               then (Inr r, n')
               else (Inl (AxiosError (''Request failed with status code '' @ show_nat (status r))
                            (Some r)), n')))"

definition String_body :: "body \<Rightarrow> string" where
  "String_body b =
     (case b of TextBody s \<Rightarrow> s | JsonBody j \<Rightarrow> String_json j | FeverBody r \<Rightarrow> ''[object Object]'')"

definition body_truthy :: "body \<Rightarrow> bool" where
  "body_truthy b =
     (case b of TextBody s \<Rightarrow> s \<noteq> [] | JsonBody j \<Rightarrow> truthy j | FeverBody r \<Rightarrow> True)"

text \<open>\<^verbatim>\<open>body?.key\<close> for the keys of the Google Reader answers.\<close>

definition body_prop :: "body \<Rightarrow> string \<Rightarrow> json option" where
  "body_prop b key = (case b of JsonBody j \<Rightarrow> get_prop j key | _ \<Rightarrow> None)"

text \<open>\<^verbatim>\<open>String(error)\<close>: the name of the error and its message.\<close>

definition String_error :: "js_error \<Rightarrow> string" where
  "String_error e =
     (case e of
        McpError c m \<Rightarrow> ''McpError: '' @ m
      | Error m \<Rightarrow> ''Error: '' @ m
      | TypeError m \<Rightarrow> ''TypeError: '' @ m
      | AxiosError m r \<Rightarrow> ''AxiosError: '' @ m)"

section \<open>FreshRSSClient: the Fever API\<close>

record client =
  apiUrl :: string
  username :: string
  password :: string
  apiKey :: string

text \<open>\<^verbatim>\<open>s.replace(/\/$/, '')\<close>: one trailing slash is removed.\<close>

definition strip_slash :: "string \<Rightarrow> string" where
  "strip_slash s = (if s \<noteq> [] \<and> last s = CHR ''/'' then butlast s else s)"

text \<open>The constructor; \<open>md5_hex\<close> is the hash of the \<^verbatim>\<open>crypto\<close> module, a parameter here.\<close>

definition FreshRSSClient :: "(string \<Rightarrow> string) \<Rightarrow> string \<Rightarrow> string \<Rightarrow> string \<Rightarrow> client" where
  "FreshRSSClient md5_hex apiUrl' username' password' =
     \<lparr>apiUrl = strip_slash apiUrl', username = username', password = password',
      apiKey = md5_hex (username' @ '':'' @ password')\<rparr>"

text \<open>
  \<^verbatim>\<open>request(endpoint, method, data)\<close>: always a POST to the Fever endpoint. An \<^verbatim>\<open>AxiosError\<close>
  becomes an \<^verbatim>\<open>McpError\<close> with code \<^verbatim>\<open>InternalError\<close>; the error thrown for a falsy
  \<^verbatim>\<open>api_version\<close> is not an \<^verbatim>\<open>AxiosError\<close> and is thrown again as it is. A body that is not
  an object of the Fever API has no \<^verbatim>\<open>api_version\<close>.
\<close>

text \<open>The configuration object that \<^verbatim>\<open>request\<close> passes to axios.\<close>

definition fever_config :: "client \<Rightarrow> (string \<times> string) list \<Rightarrow> http_request" where
  "fever_config c data' =
     \<lparr>req_method = ''POST'', req_url = apiUrl c @ ''/api/fever.php'',
      req_headers = [(''Content-Type'', ''application/x-www-form-urlencoded'')],
      req_params = [], req_data = (''api_key'', apiKey c) # data',
      validateStatus_true = False\<rparr>"

definition request ::
  "client \<Rightarrow> string \<Rightarrow> string \<Rightarrow> (string \<times> string) list \<Rightarrow> net \<Rightarrow> (js_error + FreshRSSResponse) \<times> net"
where
  "request c endpoint method' data' n =
     (case axios (fever_config c data') n of
        (Inl (AxiosError msg resp), n') \<Rightarrow>
          (Inl (McpError InternalError (''FreshRSS API error: '' @
             (case js_or (case resp of None \<Rightarrow> None | Some r \<Rightarrow> body_prop (data r) ''error'') None of
                Some v \<Rightarrow> String_json v
              | None \<Rightarrow> msg))), n')
      | (Inl err, n') \<Rightarrow> (Inl err, n')
      | (Inr response, n') \<Rightarrow>
          (case data response of
             FeverBody d \<Rightarrow>
               if api_version d = None \<or> api_version d = Some 0
               then (Inl (Error ''Invalid API response''), n')
               else (Inr d, n')
           | _ \<Rightarrow> (Inl (Error ''Invalid API response''), n')))"

text \<open>\<^verbatim>\<open>String(x || '').split(',').map((s) => s.trim()).filter(Boolean)\<close>\<close>

definition unreadIds :: "string option \<Rightarrow> string list" where
  "unreadIds x =
     filter (\<lambda>s. s \<noteq> [])
       (map trim (js_split CHR '','' (case x of None \<Rightarrow> [] | Some s \<Rightarrow> s)))"

text \<open>
  The loop \<^verbatim>\<open>for (const batch of chunkArray(unreadIds, 50))\<close> of \<^verbatim>\<open>getUnreadItems\<close>, with
  the array \<^verbatim>\<open>allUnreadItems\<close> as accumulator. A request that throws ends the loop.
\<close>

fun fetchBatches ::
  "client \<Rightarrow> string list list \<Rightarrow> FreshRSSItem list \<Rightarrow> net \<Rightarrow> (js_error + FreshRSSItem list) \<times> net"
where
  "fetchBatches c [] allUnreadItems n = (Inr allUnreadItems, n)"
| "fetchBatches c (batch # rest) allUnreadItems n =
     (case request c '''' ''GET'' [(''items'', ''''), (''with_ids'', join '','' batch)] n of
        (Inl err, n') \<Rightarrow> (Inl err, n')
      | (Inr itemsResp, n') \<Rightarrow>
          fetchBatches c rest
            (if field_truthy (items itemsResp) \<and> isArray (items itemsResp)
             then allUnreadItems @ elements (items itemsResp)
             else allUnreadItems)
            n')"

definition getUnreadItems :: "client \<Rightarrow> net \<Rightarrow> (js_error + FreshRSSResponse) \<times> net" where
  "getUnreadItems c n =
     (case request c '''' ''GET'' [(''unread_item_ids'', '''')] n of
        (Inl err, n1) \<Rightarrow> (Inl err, n1)
      | (Inr unreadIdsResp, n1) \<Rightarrow>
          (case fetchBatches c (chunkArray (unreadIds (unread_item_ids unreadIdsResp)) 50) [] n1 of
             (Inl err, n2) \<Rightarrow> (Inl err, n2)
           | (Inr allUnreadItems, n2) \<Rightarrow>
               (let items' = filter (\<lambda>item. is_read item = 0) allUnreadItems in
                (Inr \<lparr>api_version = api_version unreadIdsResp,
                      auth = auth unreadIdsResp,
                      last_refreshed_on_time = last_refreshed_on_time unreadIdsResp,
                      total_items = Some (int (length items')),
                      items = Array items',
                      unread_item_ids = None, saved_item_ids = None,
                      feeds = None, feeds_groups = None, groups = None\<rparr>, n2))))"


section \<open>FreshRSSClient: the Google Reader API\<close>

text \<open>
  The text a \<^verbatim>\<open>.catch\<close> handler puts into its message:
  \<^verbatim>\<open>axios.isAxiosError(err) ? err.response?.data || err.message : err\<close>.
\<close>

definition catch_message :: "js_error \<Rightarrow> string" where
  "catch_message err =
     (case err of
        AxiosError msg resp \<Rightarrow>
          (case resp of
             None \<Rightarrow> msg
           | Some r \<Rightarrow> if body_truthy (data r) then String_body (data r) else msg)
      | _ \<Rightarrow> String_error err)"

text \<open>
  \<^verbatim>\<open>s.match(/Auth=([^\s\n]+)/)\<close>, as the captured group. The expression matches at the
  start of \<open>s\<close> when \<open>s\<close> begins with \<^verbatim>\<open>Auth=\<close> and a character that is not white space
  (\<open>auth_at\<close>); the match is the leftmost such place in the string, and the group is the
  longest run of characters that are not white space from there.
\<close>

definition auth_at :: "string \<Rightarrow> bool" where
  "auth_at s = (take 5 s = ''Auth='' \<and> drop 5 s \<noteq> [] \<and> \<not> is_space (hd (drop 5 s)))"

fun authMatch :: "string \<Rightarrow> string option" where
  "authMatch [] = None"
| "authMatch (c # cs) =
     (if auth_at (c # cs) then Some (takeWhile (\<lambda>x. \<not> is_space x) (drop 5 (c # cs)))
      else authMatch cs)"

text \<open>
  \<^verbatim>\<open>tokenRes.data?.trim() ?? ''\<close>: a string is trimmed, \<^verbatim>\<open>null\<close> gives the empty string, and
  any other value has no method \<^verbatim>\<open>trim\<close>, so that the call throws a \<^verbatim>\<open>TypeError\<close>.
\<close>

definition data_trim :: "body \<Rightarrow> js_error + string" where
  "data_trim b =
     (case b of
        TextBody s \<Rightarrow> Inr (trim s)
      | JsonBody JNull \<Rightarrow> Inr []
      | _ \<Rightarrow> Inl (TypeError ''tokenRes.data?.trim is not a function''))"

text \<open>The session: the auth token of the login, the edit token, and the base URL.\<close>

record session =
  authToken :: string
  editToken :: string
  base :: string

text \<open>The configuration objects of the Google Reader requests.\<close>

definition login_config :: "client \<Rightarrow> string \<Rightarrow> http_request" where
  "login_config c base' =
     \<lparr>req_method = ''POST'', req_url = base' @ ''/accounts/ClientLogin'',
      req_headers = [(''Content-Type'', ''application/x-www-form-urlencoded'')],
      req_params = [],
      req_data = [(''Email'', username c), (''Passwd'', password c)],
      validateStatus_true = False\<rparr>"

definition token_config :: "string \<Rightarrow> string \<Rightarrow> http_request" where
  "token_config base' auth' =
     \<lparr>req_method = ''GET'', req_url = base' @ ''/reader/api/0/token'',
      req_headers = [(''Authorization'', ''GoogleLogin auth='' @ auth')],
      req_params = [], req_data = [],
      validateStatus_true = False\<rparr>"

definition tag_list_config :: "session \<Rightarrow> http_request" where
  "tag_list_config s =
     \<lparr>req_method = ''GET'', req_url = base s @ ''/reader/api/0/tag/list'',
      req_headers = [(''Authorization'', ''GoogleLogin auth='' @ authToken s)],
      req_params = [(''output'', ''json'')], req_data = [],
      validateStatus_true = False\<rparr>"

text \<open>
  The POST to \<^verbatim>\<open>subscription/edit\<close>; \<open>any_status\<close> says whether the call sets
  \<^verbatim>\<open>validateStatus: () => true\<close>.
\<close>

definition subscription_edit_config ::
  "session \<Rightarrow> (string \<times> string) list \<Rightarrow> bool \<Rightarrow> http_request"
where
  "subscription_edit_config s params any_status =
     \<lparr>req_method = ''POST'', req_url = base s @ ''/reader/api/0/subscription/edit'',
      req_headers = [(''Authorization'', ''GoogleLogin auth='' @ authToken s),
                     (''Content-Type'', ''application/x-www-form-urlencoded'')],
      req_params = [], req_data = params,
      validateStatus_true = any_status\<rparr>"

text \<open>\<^verbatim>\<open>this.apiUrl.replace(/\/$/, '') + '/api/greader.php'\<close>\<close>

definition greader_base :: "client \<Rightarrow> string" where
  "greader_base c = strip_slash (apiUrl c) @ ''/api/greader.php''"

definition getGReaderAuthAndToken :: "client \<Rightarrow> net \<Rightarrow> (js_error + session) \<times> net" where
  "getGReaderAuthAndToken c n =
     (let base' = greader_base c in
      case axios (login_config c base') n of
        (Inl err, n1) \<Rightarrow>
          (Inl (McpError InternalError
                  (''FreshRSS Google Reader login failed: '' @ catch_message err)), n1)
      | (Inr loginRes, n1) \<Rightarrow>
          (case authMatch (String_body (data loginRes)) of
             None \<Rightarrow>
               (Inl (McpError InternalError
                       ''FreshRSS Google Reader: no Auth token in login response''), n1)
           | Some group1 \<Rightarrow>
               (let auth' = trim group1 in
                case axios (token_config base' auth') n1 of
                  (Inl err, n2) \<Rightarrow>
                    (Inl (McpError InternalError
                            (''FreshRSS Google Reader token failed: '' @ catch_message err)), n2)
                | (Inr tokenRes, n2) \<Rightarrow>
                    (case data_trim (data tokenRes) of
                       Inl err \<Rightarrow> (Inl err, n2)
                     | Inr trimmed \<Rightarrow>
                         (let editToken' = filter (\<lambda>x. \<not> is_space x) trimmed in
                          if editToken' = []
                          then (Inl (McpError InternalError
                                       ''FreshRSS Google Reader: no edit token returned''), n2)
                          else (Inr \<lparr>authToken = auth', editToken = editToken', base = base'\<rparr>,
                                n2))))))"

text \<open>
  The result of \<^verbatim>\<open>subscribeFeed\<close>. The fields hold what the service sent, of whatever type;
  \<open>None\<close> is \<^verbatim>\<open>undefined\<close>. The field \<^verbatim>\<open>title\<close> is \<open>feedTitle\<close> here.
\<close>

record subscribe_result =
  feedId :: "json option"
  feedTitle :: "json option"
  numResults :: "json option"
  error :: "json option"

text \<open>
  \<^verbatim>\<open>typeof body === 'string' ? body : (body?.error || body?.message || JSON.stringify(body))\<close>;
  \<open>stringify\<close> is \<^verbatim>\<open>JSON.stringify\<close>, a parameter here.
\<close>

definition error_msg :: "(body \<Rightarrow> string) \<Rightarrow> body \<Rightarrow> json" where
  "error_msg stringify b =
     (case b of
        TextBody s \<Rightarrow> JStr s
      | _ \<Rightarrow>
          (case js_or (body_prop b ''error'') (body_prop b ''message'') of
             Some v \<Rightarrow> if truthy v then v else JStr (stringify b)
           | None \<Rightarrow> JStr (stringify b)))"

definition subscribeFeed ::
  "(body \<Rightarrow> string) \<Rightarrow> client \<Rightarrow> string \<Rightarrow> string option \<Rightarrow> net \<Rightarrow> (js_error + subscribe_result) \<times> net"
where
  "subscribeFeed stringify c feedUrl categoryName n =
     (case getGReaderAuthAndToken c n of
        (Inl err, n1) \<Rightarrow> (Inl err, n1)
      | (Inr s, n1) \<Rightarrow>
          (let params =
                 [(''ac'', ''subscribe''), (''s'', ''feed/'' @ feedUrl), (''T'', editToken s)] @
                 (case categoryName of
                    None \<Rightarrow> []
                  | Some name \<Rightarrow> if name \<noteq> [] then [(''a'', ''user/-/label/'' @ name)] else [])
           in
           case axios (subscription_edit_config s params True) n1 of
             (Inl err, n2) \<Rightarrow> (Inl err, n2)
           | (Inr res, n2) \<Rightarrow>
               (let body' = data res in
                if status res \<noteq> 200
                then (Inr \<lparr>feedId = None, feedTitle = None, numResults = None,
                           error = Some (error_msg stringify body')\<rparr>, n2)
                else if (case body' of TextBody t \<Rightarrow> trim t = ''OK'' | _ \<Rightarrow> False)
                then (Inr \<lparr>feedId = None, feedTitle = None, numResults = Some (JNum 1),
                           error = None\<rparr>, n2)
                else (Inr \<lparr>feedId = nullish (body_prop body' ''streamId'') (body_prop body' ''feedId''),
                           feedTitle = nullish (body_prop body' ''streamName'') (body_prop body' ''title''),
                           numResults = body_prop body' ''numResults'',
                           error = body_prop body' ''error''\<rparr>, n2))))"

text \<open>
  \<^verbatim>\<open>listRes.data?.tags ?? []\<close>, then \<^verbatim>\<open>tags.some((t) => t.id === labelId)\<close>: a value that is
  not an array has no method \<^verbatim>\<open>some\<close>, and reading \<^verbatim>\<open>id\<close> of a \<^verbatim>\<open>null\<close> element throws;
  \<^verbatim>\<open>some\<close> stops at the first element that matches.
\<close>

fun tags_some :: "json list \<Rightarrow> string \<Rightarrow> js_error + bool" where
  "tags_some [] labelId = Inr False"
| "tags_some (t # ts) labelId =
     (if t = JNull then Inl (TypeError ''Cannot read properties of null (reading 'id')'')
      else if get_prop t ''id'' = Some (JStr labelId) then Inr True
      else tags_some ts labelId)"

definition tag_exists :: "body \<Rightarrow> string \<Rightarrow> js_error + bool" where
  "tag_exists b labelId =
     (case nullish (body_prop b ''tags'') (Some (JArr [])) of
        Some (JArr tags) \<Rightarrow> tags_some tags labelId
      | _ \<Rightarrow> Inl (TypeError ''tags.some is not a function''))"

record category_result =
  created :: bool
  message :: string

definition placeholderFeed :: string where
  "placeholderFeed = ''https://github.com/FreshRSS/FreshRSS/releases.atom''"

definition createCategory :: "client \<Rightarrow> string \<Rightarrow> net \<Rightarrow> (js_error + category_result) \<times> net" where
  "createCategory c categoryName n =
     (case getGReaderAuthAndToken c n of
        (Inl err, n1) \<Rightarrow> (Inl err, n1)
      | (Inr s, n1) \<Rightarrow>
          (case axios (tag_list_config s) n1 of
             (Inl err, n2) \<Rightarrow>
               (Inl (McpError InternalError
                       (''FreshRSS tag list failed: '' @ catch_message err)), n2)
           | (Inr listRes, n2) \<Rightarrow>
               (let labelId = ''user/-/label/'' @ categoryName in
                case tag_exists (data listRes) labelId of
                  Inl err \<Rightarrow> (Inl err, n2)
                | Inr True \<Rightarrow>
                    (Inr \<lparr>created = False,
                          message = ''Category '' @ [CHR 0x22] @ categoryName @ [CHR 0x22] @ '' already exists.''\<rparr>, n2)
                | Inr False \<Rightarrow>
                    (case axios (subscription_edit_config s
                                   [(''ac'', ''subscribe''), (''s'', ''feed/'' @ placeholderFeed),
                                    (''a'', labelId), (''T'', editToken s)] False) n2 of
                       (Inl err, n3) \<Rightarrow>
                         (Inl (McpError InternalError
                                 (''FreshRSS create category failed: '' @ catch_message err)), n3)
                     | (Inr r, n3) \<Rightarrow>
                         (Inr \<lparr>created = True,
                               message = ''Category '' @ [CHR 0x22] @ categoryName @ [CHR 0x22] @ '' created.''\<rparr>, n3)))))"

section \<open>The tool handler\<close>

text \<open>
  The \<^verbatim>\<open>catch\<close> of the \<^verbatim>\<open>CallToolRequestSchema\<close> handler: an \<^verbatim>\<open>McpError\<close> is thrown again,
  anything else becomes an \<^verbatim>\<open>McpError\<close> with code \<^verbatim>\<open>InternalError\<close>.
\<close>

definition handler_catch :: "js_error \<Rightarrow> js_error" where
  "handler_catch err =
     (case err of
        McpError code msg \<Rightarrow> McpError code msg
      | _ \<Rightarrow> McpError InternalError (String_error err))"

text \<open>
  The cases \<^verbatim>\<open>"get_unread"\<close> and \<^verbatim>\<open>"get_feed_items"\<close>. The result is the response object
  that the handler hands to \<^verbatim>\<open>JSON.stringify\<close>.
\<close>

definition tool_get_unread :: "client \<Rightarrow> net \<Rightarrow> (js_error + FreshRSSResponse) \<times> net" where
  "tool_get_unread c n =
     (case getUnreadItems c n of
        (Inl err, n') \<Rightarrow> (Inl (handler_catch err), n')
      | (Inr response, n') \<Rightarrow> (Inr response, n'))"



section \<open>Exchanges with the Fever endpoint\<close>

text \<open>
  What one exchange with the Fever endpoint delivers to the client: the body, when the
  outcome is a response with a status in 200..299 whose body is an object with a truthy
  \<^verbatim>\<open>api_version\<close>; nothing when there is no response, when the status is another one, or
  when the body has no such \<^verbatim>\<open>api_version\<close>.
\<close>

definition fever_reply :: "outcome \<Rightarrow> FreshRSSResponse option" where
  "fever_reply oc =
     (case oc of
        NoResponse msg \<Rightarrow> None
      | Response r \<Rightarrow>
          if 200 \<le> status r \<and> status r < 300
          then (case data r of
                  FeverBody d \<Rightarrow>
                    if api_version d = None \<or> api_version d = Some 0 then None else Some d
                | _ \<Rightarrow> None)
          else None)"

text \<open>The requests of \<^verbatim>\<open>getUnreadItems\<close>: for the list of unread ids, and for one batch.\<close>

definition batch_config :: "client \<Rightarrow> string list \<Rightarrow> http_request" where
  "batch_config c batch = fever_config c [(''items'', ''''), (''with_ids'', join '','' batch)]"

definition ids_config :: "client \<Rightarrow> http_request" where
  "ids_config c = fever_config c [(''unread_item_ids'', '''')]"

section \<open>Example data\<close>

text \<open>Concrete items, responses and a client, for the examples that follow the theorems.\<close>

definition example_item :: "string \<Rightarrow> int \<Rightarrow> int \<Rightarrow> FreshRSSItem" where
  "example_item i f r =
     \<lparr>item_id = i, feed_id = f, title = ''t'', author = None, html = ''<p/>'',
      url = ''http://example.org/'' @ i, is_saved = 0, is_read = r, created_on_time = 1700000000\<rparr>"

definition example_response :: "FreshRSSItem array_field \<Rightarrow> string option \<Rightarrow> FreshRSSResponse" where
  "example_response its ids =
     \<lparr>api_version = Some 3, auth = Some 1, last_refreshed_on_time = Some 1700000100,
      total_items = (case its of Array xs \<Rightarrow> Some (int (length xs)) | _ \<Rightarrow> None),
      items = its, unread_item_ids = ids, saved_item_ids = None,
      feeds = None, feeds_groups = None, groups = None\<rparr>"

definition example_client :: client where
  "example_client =
     \<lparr>apiUrl = ''http://rss.example.org'', username = ''alice'', password = ''secret'',
      apiKey = ''0123456789abcdef0123456789abcdef''\<rparr>"

definition ok :: "body \<Rightarrow> outcome" where
  "ok b = Response \<lparr>status = 200, data = b\<rparr>"

text \<open>The login body of the specification's example.\<close>

definition example_login_body :: string where
  "example_login_body = ''SID=...'' @ [CHR 0x0A] @ ''Auth=abc123'' @ [CHR 0x0A]"

text \<open>The session that this login body and the edit token \<^verbatim>\<open>57Z\<close> give.\<close>

definition example_session :: session where
  "example_session =
     \<lparr>authToken = ''abc123'', editToken = ''57Z'', base = greader_base example_client\<rparr>"

text \<open>Fifty-one ids: two batches.\<close>

definition many_ids :: "string list" where
  "many_ids = replicate 51 ''7''"

section \<open>Properties of chunkArray\<close>

lemma slice_nonneg:
  "0 \<le> i \<Longrightarrow> 0 \<le> k \<Longrightarrow> slice arr i (i + k) = take (nat k) (drop (nat i) arr)"
  by (auto simp: slice_def Let_def min_def take_all_iff)

lemma slice_len_full:
  assumes "0 \<le> i" "0 < k" "i + k \<le> int (length arr)"
  shows "length (slice arr i (i + k)) = nat k"
proof -
  have "slice arr i (i + k) = take (nat k) (drop (nat i) arr)"
    using assms by (intro slice_nonneg) simp_all
  moreover have "nat k \<le> length arr - nat i" using assms by linarith
  ultimately show ?thesis by simp
qed

lemma slice_len_bounds:
  assumes "0 \<le> i" "0 < k" "i < int (length arr)"
  shows "1 \<le> length (slice arr i (i + k)) \<and> length (slice arr i (i + k)) \<le> nat k"
proof -
  have "slice arr i (i + k) = take (nat k) (drop (nat i) arr)"
    using assms by (intro slice_nonneg) simp_all
  moreover have "1 \<le> length arr - nat i" "1 \<le> nat k" using assms by linarith+
  ultimately show ?thesis by simp
qed
lemma chunkLoop_concat:
  "0 < k \<Longrightarrow> 0 \<le> i \<Longrightarrow> concat (chunkLoop arr k i out) = concat out @ drop (nat i) arr"
proof (induction arr k i out rule: chunkLoop.induct)
  case (1 arr k i out)
  show ?case
  proof (cases "i < int (length arr)")
    case True
    then have step: "chunkLoop arr k i out = chunkLoop arr k (i + k) (out @ [slice arr i (i + k)])"
      using "1.prems" by (subst chunkLoop.simps) simp
    have sl: "slice arr i (i + k) = take (nat k) (drop (nat i) arr)"
      using "1.prems" by (intro slice_nonneg) simp_all
    have "0 \<le> i + k" using "1.prems" by simp
    then have ih: "concat (chunkLoop arr k (i + k) (out @ [slice arr i (i + k)])) =
          concat (out @ [slice arr i (i + k)]) @ drop (nat (i + k)) arr"
      using "1.IH" True "1.prems" by blast
    have tk: "take (nat k) (drop (nat i) arr) @ drop (nat (i + k)) arr = drop (nat i) arr"
    proof -
      have "nat (i + k) = nat k + nat i" using "1.prems" by linarith
      then have "drop (nat (i + k)) arr = drop (nat k) (drop (nat i) arr)" by simp
      then show ?thesis by (simp only: append_take_drop_id)
    qed
    have "concat (chunkLoop arr k i out) =
          concat (out @ [slice arr i (i + k)]) @ drop (nat (i + k)) arr"
      by (simp only: step ih)
    also have "\<dots> = concat out @ (slice arr i (i + k) @ drop (nat (i + k)) arr)"
      by simp
    also have "\<dots> = concat out @ drop (nat i) arr"
      by (simp only: sl tk)
    finally show ?thesis .
  next
    case False
    then have "chunkLoop arr k i out = out"
      by (subst chunkLoop.simps) simp
    then show ?thesis
      using False by simp
  qed
qed

lemma chunkLoop_length:
  "0 < k \<Longrightarrow> 0 \<le> i \<Longrightarrow>
   int (length (chunkLoop arr k i out)) =
     int (length out) + max 0 ((int (length arr) - i + k - 1) div k)"
proof (induction arr k i out rule: chunkLoop.induct)
  case (1 arr k i out)
  show ?case
  proof (cases "i < int (length arr)")
    case True
    then have step: "chunkLoop arr k i out = chunkLoop arr k (i + k) (out @ [slice arr i (i + k)])"
      using "1.prems" by (subst chunkLoop.simps) simp
    have ih: "int (length (chunkLoop arr k (i + k) (out @ [slice arr i (i + k)]))) =
          int (length (out @ [slice arr i (i + k)])) +
          max 0 ((int (length arr) - (i + k) + k - 1) div k)"
      using "1.IH" True "1.prems" by simp
    have nn: "0 \<le> (int (length arr) - i - 1) div k"
      using True "1.prems" by (simp add: pos_imp_zdiv_nonneg_iff)
    have "(int (length arr) - i + k - 1) div k = (int (length arr) - i - 1) div k + 1"
    proof -
      have "int (length arr) - i + k - 1 = (int (length arr) - i - 1) + 1 * k" by simp
      then show ?thesis using "1.prems" by (simp only: div_mult_self1)
    qed
    then show ?thesis using step ih nn by simp
  next
    case False
    then have stop: "chunkLoop arr k i out = out"
      by (subst chunkLoop.simps) simp
    have "int (length arr) - i + k - 1 \<le> k - 1" using False by simp
    then have "(int (length arr) - i + k - 1) div k \<le> (k - 1) div k"
      using "1.prems" by (simp only: zdiv_mono1)
    moreover have "(k - 1) div k = 0"
      using "1.prems" by (simp add: div_pos_pos_trivial)
    ultimately have "(int (length arr) - i + k - 1) div k \<le> 0" by simp
    then show ?thesis using stop by simp
  qed
qed

lemma chunkLoop_full:
  "0 < k \<Longrightarrow> 0 \<le> i \<Longrightarrow> \<forall>b \<in> set out. length b = nat k \<Longrightarrow>
   \<forall>b \<in> set (butlast (chunkLoop arr k i out)). length b = nat k"
proof (induction arr k i out rule: chunkLoop.induct)
  case (1 arr k i out)
  show ?case
  proof (cases "i < int (length arr)")
    case True
    then have step: "chunkLoop arr k i out = chunkLoop arr k (i + k) (out @ [slice arr i (i + k)])"
      using "1.prems" by (subst chunkLoop.simps) simp
    have pos: "0 \<le> i + k" using "1.prems" by simp
    show ?thesis
    proof (cases "i + k \<le> int (length arr)")
      case full: True
      have "length (slice arr i (i + k)) = nat k"
        using full "1.prems" by (intro slice_len_full)
      then have "\<forall>b \<in> set (out @ [slice arr i (i + k)]). length b = nat k"
        using "1.prems"(3) by simp
      then have "\<forall>b \<in> set (butlast (chunkLoop arr k (i + k) (out @ [slice arr i (i + k)]))).
          length b = nat k"
        using "1.IH" True "1.prems"(1) pos by blast
      then show ?thesis by (simp only: step)
    next
      case False
      then have "chunkLoop arr k (i + k) (out @ [slice arr i (i + k)]) = out @ [slice arr i (i + k)]"
        by (subst chunkLoop.simps) simp
      then show ?thesis using step "1.prems"(3) by simp
    qed
  next
    case False
    then have "chunkLoop arr k i out = out"
      by (subst chunkLoop.simps) simp
    then show ?thesis using "1.prems"(3) by (auto dest: in_set_butlastD)
  qed
qed

lemma chunkLoop_bounds:
  "0 < k \<Longrightarrow> 0 \<le> i \<Longrightarrow> \<forall>b \<in> set out. 1 \<le> length b \<and> length b \<le> nat k \<Longrightarrow>
   \<forall>b \<in> set (chunkLoop arr k i out). 1 \<le> length b \<and> length b \<le> nat k"
proof (induction arr k i out rule: chunkLoop.induct)
  case (1 arr k i out)
  show ?case
  proof (cases "i < int (length arr)")
    case True
    then have step: "chunkLoop arr k i out = chunkLoop arr k (i + k) (out @ [slice arr i (i + k)])"
      using "1.prems" by (subst chunkLoop.simps) simp
    have pos: "0 \<le> i + k" using "1.prems" by simp
    have "1 \<le> length (slice arr i (i + k)) \<and> length (slice arr i (i + k)) \<le> nat k"
      using True "1.prems" by (intro slice_len_bounds)
    then have "\<forall>b \<in> set (out @ [slice arr i (i + k)]). 1 \<le> length b \<and> length b \<le> nat k"
      using "1.prems"(3) by simp
    then have "\<forall>b \<in> set (chunkLoop arr k (i + k) (out @ [slice arr i (i + k)])).
        1 \<le> length b \<and> length b \<le> nat k"
      using "1.IH" True "1.prems"(1) pos by blast
    then show ?thesis by (simp only: step)
  next
    case False
    then have "chunkLoop arr k i out = out"
      by (subst chunkLoop.simps) simp
    then show ?thesis using "1.prems"(3) by simp
  qed
qed

lemma ceiling_div_50: "\<lceil>real n / 50\<rceil> = (int n + 49) div 50"
proof -
  define z where "z = (int n + 49) div 50"
  have a: "50 * z \<le> int n + 49" and b: "int n < 50 * z + 1"
    unfolding z_def by linarith+
  have "real_of_int (50 * z) \<le> real_of_int (int n + 49)" using a by (simp only: of_int_le_iff)
  then have a': "real_of_int z - 1 < real n / 50" by simp
  have "real_of_int (int n) < real_of_int (50 * z + 1)" using b by (simp only: of_int_less_iff)
  then have b': "real n / 50 \<le> real_of_int z"
    using b by simp
  show ?thesis unfolding z_def [symmetric] using a' b' by (rule ceiling_unique)
qed

text \<open>
  C2. With batch size 50, \<open>chunkArray\<close> cuts an id sequence into consecutive batches:
  joining the batches in order gives back the sequence (nothing lost, duplicated or
  reordered), every batch but the last holds exactly 50 ids, no batch is empty or longer
  than 50, and there are \<open>\<lceil>N / 50\<rceil>\<close> batches for \<open>N\<close> ids.
\<close>

theorem chunkArray_50_partition:
  "concat (chunkArray ids 50) = ids \<and>
   (\<forall>b \<in> set (butlast (chunkArray ids 50)). length b = 50) \<and>
   (\<forall>b \<in> set (chunkArray ids 50). 1 \<le> length b \<and> length b \<le> 50) \<and>
   int (length (chunkArray ids 50)) = \<lceil>real (length ids) / 50\<rceil>"
proof -
  have c: "chunkArray ids 50 = chunkLoop ids 50 0 []"
    by (simp add: chunkArray_def)
  have "concat (chunkLoop ids 50 0 []) = ids"
    using chunkLoop_concat [of 50 0 ids "[]"] by simp
  moreover have "\<forall>b \<in> set (butlast (chunkLoop ids 50 0 [])). length b = 50"
    using chunkLoop_full [of 50 0 "[]" ids] by simp
  moreover have "\<forall>b \<in> set (chunkLoop ids 50 0 []). 1 \<le> length b \<and> length b \<le> 50"
    using chunkLoop_bounds [of 50 0 "[]" ids] by simp
  moreover have "int (length (chunkLoop ids 50 0 [])) = \<lceil>real (length ids) / 50\<rceil>"
  proof -
    have "0 \<le> (int (length ids) + 49) div 50" by simp
    then show ?thesis
      using chunkLoop_length [of 50 0 ids "[]"] by (simp add: ceiling_div_50)
  qed
  ultimately show ?thesis by (simp only: c)
qed

theorem chunkArray_50_partition_witness:
  "concat (chunkArray (replicate 120 (7::nat)) 50) = replicate 120 7 \<and>
   length (chunkArray (replicate 120 (7::nat)) 50) = 3"
proof -
  have "\<lceil>real (120::nat) / 50\<rceil> = 3" by (simp add: ceiling_eq_iff)
  then show ?thesis
    using chunkArray_50_partition [of "replicate 120 (7::nat)"] by simp
qed

text \<open>
  C9. A chunk size of zero or less gives the single batch \<open>[arr]\<close>: the whole array,
  unchanged. (\<open>chunkArray\<close> is a total function: it returns on every input.)
\<close>

theorem chunkArray_nonpositive:
  "chunkSize \<le> 0 \<Longrightarrow> chunkArray arr chunkSize = [arr]"
  by (simp add: chunkArray_def)

theorem chunkArray_nonpositive_witness:
  "(-3::int) \<le> 0 \<and> chunkArray [1, 2, 3 :: nat] (-3) = [[1, 2, 3]] \<and>
   (0::int) \<le> 0 \<and> chunkArray ''abc'' 0 = [''abc'']"
  using chunkArray_nonpositive [of "-3" "[1, 2, 3 :: nat]"]
        chunkArray_nonpositive [of 0 "''abc''"]
  by simp


section \<open>Decimal numerals\<close>







lemma show_nat_nonempty: "show_nat n \<noteq> []"
  by (subst show_nat.simps) simp








lemma show_nat_split: "show_nat m = hd (show_nat m) # tl (show_nat m)"
  using show_nat_nonempty [of m] by simp



section \<open>Filtering by feed\<close>








section \<open>Unread items\<close>

lemma axios_next:
  assumes "pending n = oc # rest"
  shows "axios config n =
     ((case oc of
         NoResponse msg \<Rightarrow> Inl (AxiosError msg None)
       | Response r \<Rightarrow>
           if validateStatus_true config \<or> (200 \<le> status r \<and> status r < 300) then Inr r
           else Inl (AxiosError (''Request failed with status code '' @ show_nat (status r))
                       (Some r))),
      \<lparr>pending = rest, sent = sent n @ [config]\<rparr>)"
  using assms by (simp add: axios_def Let_def split: outcome.splits)

lemma fever_config_status [simp]: "validateStatus_true (fever_config c dat) = False"
  by (simp add: fever_config_def)

lemma request_reply:
  assumes "pending n = oc # rest" and "fever_reply oc = Some d"
  shows "request c e m dat n = (Inr d, \<lparr>pending = rest, sent = sent n @ [fever_config c dat]\<rparr>)"
proof -
  from assms(2) obtain r where
    r: "oc = Response r" "200 \<le> status r \<and> status r < 300" "data r = FeverBody d"
       "api_version d \<noteq> None" "api_version d \<noteq> Some 0"
    by (auto simp: fever_reply_def split: outcome.splits body.splits if_splits)
  then show ?thesis
    by (simp add: request_def axios_next [OF assms(1)])
qed

lemma request_no_reply:
  assumes "pending n = oc # rest" and "fever_reply oc = None"
  shows "\<exists>err. request c e m dat n =
           (Inl err, \<lparr>pending = rest, sent = sent n @ [fever_config c dat]\<rparr>) \<and>
         (case oc of
            NoResponse msg \<Rightarrow> err = McpError InternalError (''FreshRSS API error: '' @ msg)
          | Response r \<Rightarrow>
              if 200 \<le> status r \<and> status r < 300 then err = Error ''Invalid API response''
              else (\<exists>msg. err = McpError InternalError msg))"
proof (cases oc)
  case (NoResponse msg)
  then show ?thesis
    by (simp add: request_def axios_next [OF assms(1)] js_or_def)
next
  case (Response r)
  show ?thesis
  proof (cases "200 \<le> status r \<and> status r < 300")
    case True
    then have "\<forall>d. data r = FeverBody d \<longrightarrow> api_version d = None \<or> api_version d = Some 0"
      using assms(2) Response by (auto simp: fever_reply_def split: if_splits)
    then show ?thesis
      using True Response
      by (cases "data r") (auto simp: request_def axios_next [OF assms(1)])
  next
    case False
    then show ?thesis
      using Response
      by (cases "js_or (body_prop (data r) ''error'') None")
         (auto simp: request_def axios_next [OF assms(1)])
  qed
qed

lemma pushed:
  "(if field_truthy f \<and> isArray f then acc @ elements f else acc) = acc @ elements f"
  by (cases f) simp_all

lemma fetchBatches_all_reply:
  "length ocs = length batches \<Longrightarrow> map fever_reply ocs = map Some rs \<Longrightarrow>
   pending n = ocs @ rest \<Longrightarrow>
   fetchBatches c batches acc n =
     (Inr (acc @ concat (map (\<lambda>r. elements (items r)) rs)),
      \<lparr>pending = rest, sent = sent n @ map (batch_config c) batches\<rparr>)"
proof (induction batches arbitrary: ocs rs acc n)
  case Nil
  then show ?case by simp
next
  case (Cons batch batches)
  from Cons.prems(1) obtain oc ocs' where ocs: "ocs = oc # ocs'" "length ocs' = length batches"
    by (cases ocs) auto
  from Cons.prems(2) ocs obtain r rs' where
    rs: "rs = r # rs'" "fever_reply oc = Some r" "map fever_reply ocs' = map Some rs'"
    by (cases rs) auto
  have p: "pending n = oc # (ocs' @ rest)" using Cons.prems(3) ocs by simp
  have req: "request c '''' ''GET'' [(''items'', ''''), (''with_ids'', join '','' batch)] n =
      (Inr r, \<lparr>pending = ocs' @ rest, sent = sent n @ [batch_config c batch]\<rparr>)"
    using request_reply [OF p rs(2)] by (simp add: batch_config_def)
  have "fetchBatches c batches (acc @ elements (items r))
          \<lparr>pending = ocs' @ rest, sent = sent n @ [batch_config c batch]\<rparr> =
        (Inr ((acc @ elements (items r)) @ concat (map (\<lambda>r. elements (items r)) rs')),
         \<lparr>pending = rest,
          sent = sent \<lparr>pending = ocs' @ rest, sent = sent n @ [batch_config c batch]\<rparr> @
                 map (batch_config c) batches\<rparr>)"
    by (rule Cons.IH [OF ocs(2) rs(3)]) simp
  then show ?case
    using req rs(1) by (simp add: pushed)
qed

lemma fetchBatches_no_reply:
  "length ocs < length batches \<Longrightarrow> map fever_reply ocs = map Some rs \<Longrightarrow>
   pending n = ocs @ bad # rest \<Longrightarrow> fever_reply bad = None \<Longrightarrow>
   \<exists>err. fetchBatches c batches acc n =
       (Inl err, \<lparr>pending = rest,
                  sent = sent n @ map (batch_config c) (take (Suc (length ocs)) batches)\<rparr>) \<and>
     (case bad of
        NoResponse msg \<Rightarrow> err = McpError InternalError (''FreshRSS API error: '' @ msg)
      | Response r \<Rightarrow>
          if 200 \<le> status r \<and> status r < 300 then err = Error ''Invalid API response''
          else (\<exists>msg. err = McpError InternalError msg))"
proof (induction batches arbitrary: ocs rs acc n)
  case Nil
  then show ?case by simp
next
  case (Cons batch batches)
  show ?case
  proof (cases ocs)
    case Nil
    then have p: "pending n = bad # rest" using Cons.prems(3) by simp
    from request_no_reply [OF p Cons.prems(4), of c "''''" "''GET''"
        "[(''items'', ''''), (''with_ids'', join '','' batch)]"]
    obtain err where
      e: "request c '''' ''GET'' [(''items'', ''''), (''with_ids'', join '','' batch)] n =
            (Inl err, \<lparr>pending = rest, sent = sent n @ [batch_config c batch]\<rparr>)"
         "(case bad of
            NoResponse msg \<Rightarrow> err = McpError InternalError (''FreshRSS API error: '' @ msg)
          | Response r \<Rightarrow>
              if 200 \<le> status r \<and> status r < 300 then err = Error ''Invalid API response''
              else (\<exists>msg. err = McpError InternalError msg))"
      by (auto simp: batch_config_def)
    have "fetchBatches c (batch # batches) acc n =
        (Inl err, \<lparr>pending = rest, sent = sent n @ [batch_config c batch]\<rparr>)"
      using e(1) by simp
    then show ?thesis using Nil e(2) by simp
  next
    case (Cons oc ocs')
    then have len: "length ocs' < length batches" using Cons.prems(1) by simp
    from Cons.prems(2) Cons obtain r rs' where
      rs: "rs = r # rs'" "fever_reply oc = Some r" "map fever_reply ocs' = map Some rs'"
      by (cases rs) auto
    have p: "pending n = oc # (ocs' @ bad # rest)" using Cons.prems(3) Cons by simp
    have req: "request c '''' ''GET'' [(''items'', ''''), (''with_ids'', join '','' batch)] n =
        (Inr r, \<lparr>pending = ocs' @ bad # rest, sent = sent n @ [batch_config c batch]\<rparr>)"
      using request_reply [OF p rs(2)] by (simp add: batch_config_def)
    have "\<exists>err. fetchBatches c batches (acc @ elements (items r))
            \<lparr>pending = ocs' @ bad # rest, sent = sent n @ [batch_config c batch]\<rparr> =
          (Inl err, \<lparr>pending = rest,
             sent = sent \<lparr>pending = ocs' @ bad # rest, sent = sent n @ [batch_config c batch]\<rparr> @
                 map (batch_config c) (take (Suc (length ocs')) batches)\<rparr>) \<and>
       (case bad of
          NoResponse msg \<Rightarrow> err = McpError InternalError (''FreshRSS API error: '' @ msg)
        | Response r \<Rightarrow>
            if 200 \<le> status r \<and> status r < 300 then err = Error ''Invalid API response''
            else (\<exists>msg. err = McpError InternalError msg))"
      by (rule Cons.IH [OF len rs(3) _ Cons.prems(4)]) simp
    then obtain err where
      e: "fetchBatches c batches (acc @ elements (items r))
            \<lparr>pending = ocs' @ bad # rest, sent = sent n @ [batch_config c batch]\<rparr> =
          (Inl err, \<lparr>pending = rest,
             sent = sent n @ batch_config c batch #
                 map (batch_config c) (take (Suc (length ocs')) batches)\<rparr>)"
         "(case bad of
            NoResponse msg \<Rightarrow> err = McpError InternalError (''FreshRSS API error: '' @ msg)
          | Response r \<Rightarrow>
              if 200 \<le> status r \<and> status r < 300 then err = Error ''Invalid API response''
              else (\<exists>msg. err = McpError InternalError msg))"
      by auto
    have "fetchBatches c (batch # batches) acc n =
        (Inl err, \<lparr>pending = rest,
             sent = sent n @ batch_config c batch #
                 map (batch_config c) (take (Suc (length ocs')) batches)\<rparr>)"
      using req e(1) by (simp add: pushed)
    then show ?thesis using Cons e(2) by simp
  qed
qed

lemma getUnreadItems_all_reply:
  assumes "pending n = oc0 # ocs @ rest" and "fever_reply oc0 = Some r0"
    and "length ocs = length (chunkArray (unreadIds (unread_item_ids r0)) 50)"
    and "map fever_reply ocs = map Some rs"
  shows "getUnreadItems c n =
     (Inr \<lparr>api_version = api_version r0, auth = auth r0,
           last_refreshed_on_time = last_refreshed_on_time r0,
           total_items = Some (int (length (filter (\<lambda>item. is_read item = 0)
                                (concat (map (\<lambda>r. elements (items r)) rs))))),
           items = Array (filter (\<lambda>item. is_read item = 0)
                            (concat (map (\<lambda>r. elements (items r)) rs))),
           unread_item_ids = None, saved_item_ids = None,
           feeds = None, feeds_groups = None, groups = None\<rparr>,
      \<lparr>pending = rest,
       sent = sent n @ ids_config c #
              map (batch_config c) (chunkArray (unreadIds (unread_item_ids r0)) 50)\<rparr>)"
proof -
  have first: "request c '''' ''GET'' [(''unread_item_ids'', '''')] n =
      (Inr r0, \<lparr>pending = ocs @ rest, sent = sent n @ [ids_config c]\<rparr>)"
    using request_reply [OF assms(1,2)] by (simp add: ids_config_def)
  have "fetchBatches c (chunkArray (unreadIds (unread_item_ids r0)) 50) []
          \<lparr>pending = ocs @ rest, sent = sent n @ [ids_config c]\<rparr> =
        (Inr ([] @ concat (map (\<lambda>r. elements (items r)) rs)),
         \<lparr>pending = rest,
          sent = sent \<lparr>pending = ocs @ rest, sent = sent n @ [ids_config c]\<rparr> @
                 map (batch_config c) (chunkArray (unreadIds (unread_item_ids r0)) 50)\<rparr>)"
    by (rule fetchBatches_all_reply [OF assms(3,4)]) simp
  then show ?thesis
    using first by (simp add: getUnreadItems_def Let_def)
qed

text \<open>
  C1. When the request for the unread ids and every batch request are answered (status
  200..299, a body with \<^verbatim>\<open>api_version\<close>), \<open>getUnreadItems\<close> returns an envelope whose items
  are exactly the fetched items with \<open>is_read = 0\<close>, in the order fetched; \<open>total_items\<close> is
  their number; \<open>api_version\<close>, \<open>auth\<close> and \<open>last_refreshed_on_time\<close> are those of the answer
  to the request for the unread ids. One batch request is sent for each batch of
  \<open>chunkArray\<close>. The example after the theorem is the one of the specification: ids
  \<^verbatim>\<open>"1,2,3"\<close> and items read 0, 1, 0 give the items 1 and 3 and \<open>total_items = 2\<close>.
\<close>

theorem getUnreadItems_unread_only:
  assumes "pending n = oc0 # ocs @ rest" and "fever_reply oc0 = Some r0"
    and "length ocs = length (chunkArray (unreadIds (unread_item_ids r0)) 50)"
    and "map fever_reply ocs = map Some rs"
  shows "\<exists>env n'. getUnreadItems c n = (Inr env, n') \<and>
     items env = Array (filter (\<lambda>item. is_read item = 0)
                          (concat (map (\<lambda>r. elements (items r)) rs))) \<and>
     total_items env = Some (int (length (filter (\<lambda>item. is_read item = 0)
                                (concat (map (\<lambda>r. elements (items r)) rs))))) \<and>
     api_version env = api_version r0 \<and> auth env = auth r0 \<and>
     last_refreshed_on_time env = last_refreshed_on_time r0 \<and>
     pending n' = rest \<and>
     sent n' = sent n @ ids_config c #
                 map (batch_config c) (chunkArray (unreadIds (unread_item_ids r0)) 50)"
  using getUnreadItems_all_reply [OF assms, of c] by simp

lemma example_ids: "unreadIds (Some ''1,2,3'') = [''1'', ''2'', ''3'']"
  by (simp add: unreadIds_def js_split_def trim_def is_space_def)

lemma example_chunk: "chunkArray [''1'', ''2'', ''3''] 50 = [[''1'', ''2'', ''3'']]"
  by (simp add: chunkArray_def chunkLoop.simps slice_def)

lemma example_many_ids: "unreadIds (Some (join '','' many_ids)) = many_ids"
  unfolding many_ids_def by code_simp

lemma example_many_chunks: "chunkArray many_ids 50 = [replicate 50 ''7'', [''7'']]"
  unfolding many_ids_def by code_simp

lemma fever_reply_ok:
  "api_version d \<noteq> None \<Longrightarrow> api_version d \<noteq> Some 0 \<Longrightarrow> fever_reply (ok (FeverBody d)) = Some d"
  by (simp add: fever_reply_def ok_def)

theorem getUnreadItems_unread_only_witness:
  "\<exists>env n'.
     getUnreadItems example_client
       \<lparr>pending = [ok (FeverBody (example_response Missing (Some ''1,2,3''))),
                   ok (FeverBody (example_response
                     (Array [example_item ''1'' 7 0, example_item ''2'' 7 1, example_item ''3'' 8 0])
                     None))],
        sent = []\<rparr> = (Inr env, n') \<and>
     items env = Array [example_item ''1'' 7 0, example_item ''3'' 8 0] \<and>
     total_items env = Some 2 \<and> api_version env = Some 3 \<and> auth env = Some 1 \<and>
     last_refreshed_on_time env = Some 1700000100 \<and> pending n' = [] \<and>
     sent n' = [ids_config example_client, batch_config example_client [''1'', ''2'', ''3'']]"
proof -
  let ?r0 = "example_response Missing (Some ''1,2,3'')"
  let ?r1 = "example_response
     (Array [example_item ''1'' 7 0, example_item ''2'' 7 1, example_item ''3'' 8 0]) None"
  let ?n = "\<lparr>pending = [ok (FeverBody ?r0), ok (FeverBody ?r1)], sent = []\<rparr>"
  have p: "pending ?n = ok (FeverBody ?r0) # [ok (FeverBody ?r1)] @ []" by simp
  have r0: "fever_reply (ok (FeverBody ?r0)) = Some ?r0"
    by (rule fever_reply_ok) (simp_all add: example_response_def)
  have r1: "fever_reply (ok (FeverBody ?r1)) = Some ?r1"
    by (rule fever_reply_ok) (simp_all add: example_response_def)
  have ids: "chunkArray (unreadIds (unread_item_ids ?r0)) 50 = [[''1'', ''2'', ''3'']]"
    by (simp add: example_response_def example_ids example_chunk)
  have len: "length [ok (FeverBody ?r1)] = length (chunkArray (unreadIds (unread_item_ids ?r0)) 50)"
    by (simp only: ids) simp
  have m: "map fever_reply [ok (FeverBody ?r1)] = map Some [?r1]"
    using r1 by simp
  show ?thesis
    using getUnreadItems_unread_only [OF p r0 len m, of example_client]
    by (simp add: ids) (simp add: example_response_def example_item_def)
qed

lemma getUnreadItems_no_reply:
  assumes "pending n = oc0 # ocs @ bad # rest" and "fever_reply oc0 = Some r0"
    and "length ocs < length (chunkArray (unreadIds (unread_item_ids r0)) 50)"
    and "map fever_reply ocs = map Some rs"
    and "fever_reply bad = None"
  shows "\<exists>err n'. getUnreadItems c n = (Inl err, n') \<and>
     (case bad of
        NoResponse msg \<Rightarrow> err = McpError InternalError (''FreshRSS API error: '' @ msg)
      | Response r \<Rightarrow>
          if 200 \<le> status r \<and> status r < 300 then err = Error ''Invalid API response''
          else (\<exists>msg. err = McpError InternalError msg))"
proof -
  have first: "request c '''' ''GET'' [(''unread_item_ids'', '''')] n =
      (Inr r0, \<lparr>pending = ocs @ bad # rest, sent = sent n @ [ids_config c]\<rparr>)"
    using request_reply [OF assms(1,2)] by (simp add: ids_config_def)
  have "\<exists>err. fetchBatches c (chunkArray (unreadIds (unread_item_ids r0)) 50) []
          \<lparr>pending = ocs @ bad # rest, sent = sent n @ [ids_config c]\<rparr> =
        (Inl err, \<lparr>pending = rest,
           sent = sent \<lparr>pending = ocs @ bad # rest, sent = sent n @ [ids_config c]\<rparr> @
             map (batch_config c)
               (take (Suc (length ocs)) (chunkArray (unreadIds (unread_item_ids r0)) 50))\<rparr>) \<and>
     (case bad of
        NoResponse msg \<Rightarrow> err = McpError InternalError (''FreshRSS API error: '' @ msg)
      | Response r \<Rightarrow>
          if 200 \<le> status r \<and> status r < 300 then err = Error ''Invalid API response''
          else (\<exists>msg. err = McpError InternalError msg))"
    by (rule fetchBatches_no_reply [OF assms(3,4) _ assms(5)]) simp
  then obtain err n' where
    e: "fetchBatches c (chunkArray (unreadIds (unread_item_ids r0)) 50) []
          \<lparr>pending = ocs @ bad # rest, sent = sent n @ [ids_config c]\<rparr> = (Inl err, n')"
       "(case bad of
        NoResponse msg \<Rightarrow> err = McpError InternalError (''FreshRSS API error: '' @ msg)
      | Response r \<Rightarrow>
          if 200 \<le> status r \<and> status r < 300 then err = Error ''Invalid API response''
          else (\<exists>msg. err = McpError InternalError msg))"
    by blast
  have "getUnreadItems c n = (Inl err, n')"
    using first e(1) by (simp add: getUnreadItems_def)
  then show ?thesis using e(2) by blast
qed

text \<open>
  C7. When a batch request fails, \<open>getUnreadItems\<close> returns no envelope, whatever the
  earlier batches delivered: it throws. For a missing response and for a status outside
  200..299 the error is an \<^verbatim>\<open>McpError\<close> with code \<^verbatim>\<open>InternalError\<close>; for a body without
  \<^verbatim>\<open>api_version\<close> it is the error \<^verbatim>\<open>Invalid API response\<close>, which the tool handler turns
  into an \<^verbatim>\<open>McpError\<close> with code \<^verbatim>\<open>InternalError\<close>. So the tool call \<^verbatim>\<open>get_unread\<close> ends
  with an \<^verbatim>\<open>InternalError\<close> in each of the three cases.
\<close>

theorem getUnreadItems_batch_failure_aborts:
  assumes "pending n = oc0 # ocs @ bad # rest" and "fever_reply oc0 = Some r0"
    and "length ocs < length (chunkArray (unreadIds (unread_item_ids r0)) 50)"
    and "map fever_reply ocs = map Some rs"
    and "fever_reply bad = None"
  shows "\<exists>err msg n'.
     getUnreadItems c n = (Inl err, n') \<and>
     (case bad of
        NoResponse m \<Rightarrow> err = McpError InternalError (''FreshRSS API error: '' @ m)
      | Response r \<Rightarrow>
          if 200 \<le> status r \<and> status r < 300 then err = Error ''Invalid API response''
          else (\<exists>m. err = McpError InternalError m)) \<and>
     tool_get_unread c n = (Inl (McpError InternalError msg), n')"
proof -
  from getUnreadItems_no_reply [OF assms, of c] obtain err n' where
    e: "getUnreadItems c n = (Inl err, n')"
       "(case bad of
        NoResponse m \<Rightarrow> err = McpError InternalError (''FreshRSS API error: '' @ m)
      | Response r \<Rightarrow>
          if 200 \<le> status r \<and> status r < 300 then err = Error ''Invalid API response''
          else (\<exists>m. err = McpError InternalError m))"
    by blast
  from e(2) have "\<exists>msg. handler_catch err = McpError InternalError msg"
    by (cases bad) (auto simp: handler_catch_def String_error_def split: if_splits)
  then obtain msg where "handler_catch err = McpError InternalError msg" by blast
  then have "tool_get_unread c n = (Inl (McpError InternalError msg), n')"
    using e(1) by (simp add: tool_get_unread_def)
  then show ?thesis using e by blast
qed

theorem getUnreadItems_batch_failure_aborts_witness:
  "(\<exists>msg n'.
     getUnreadItems example_client
       \<lparr>pending = [ok (FeverBody (example_response Missing (Some ''1,2,3''))),
                   ok (FeverBody ((example_response
                     (Array [example_item ''1'' 7 0, example_item ''2'' 7 1, example_item ''3'' 8 0])
                     None)\<lparr>api_version := None\<rparr>))],
        sent = []\<rparr> = (Inl (Error ''Invalid API response''), n') \<and>
     tool_get_unread example_client
       \<lparr>pending = [ok (FeverBody (example_response Missing (Some ''1,2,3''))),
                   ok (FeverBody ((example_response
                     (Array [example_item ''1'' 7 0, example_item ''2'' 7 1, example_item ''3'' 8 0])
                     None)\<lparr>api_version := None\<rparr>))],
        sent = []\<rparr> = (Inl (McpError InternalError msg), n')) \<and>
   (\<exists>msg msg' n'.
     getUnreadItems example_client
       \<lparr>pending = [ok (FeverBody (example_response Missing (Some (join '','' many_ids)))),
                   ok (FeverBody (example_response (Array [example_item ''7'' 4 0]) None)),
                   Response \<lparr>status = 500, data = TextBody ''Internal Server Error''\<rparr>],
        sent = []\<rparr> = (Inl (McpError InternalError msg), n') \<and>
     tool_get_unread example_client
       \<lparr>pending = [ok (FeverBody (example_response Missing (Some (join '','' many_ids)))),
                   ok (FeverBody (example_response (Array [example_item ''7'' 4 0]) None)),
                   Response \<lparr>status = 500, data = TextBody ''Internal Server Error''\<rparr>],
        sent = []\<rparr> = (Inl (McpError InternalError msg'), n'))"
proof -
  let ?r0 = "example_response Missing (Some ''1,2,3'')"
  let ?r1 = "(example_response
     (Array [example_item ''1'' 7 0, example_item ''2'' 7 1, example_item ''3'' 8 0]) None)
     \<lparr>api_version := None\<rparr>"
  let ?n = "\<lparr>pending = [ok (FeverBody ?r0), ok (FeverBody ?r1)], sent = []\<rparr>"
  have p: "pending ?n = ok (FeverBody ?r0) # [] @ ok (FeverBody ?r1) # []" by simp
  have r0: "fever_reply (ok (FeverBody ?r0)) = Some ?r0"
    by (rule fever_reply_ok) (simp_all add: example_response_def)
  have r1: "fever_reply (ok (FeverBody ?r1)) = None"
    by (simp add: fever_reply_def ok_def)
  have ids: "chunkArray (unreadIds (unread_item_ids ?r0)) 50 = [[''1'', ''2'', ''3'']]"
    by (simp add: example_response_def example_ids example_chunk)
  have len: "length ([] :: outcome list) < length (chunkArray (unreadIds (unread_item_ids ?r0)) 50)"
    by (simp only: ids) simp
  have m: "map fever_reply [] = map Some []" by simp
  have first: "\<exists>msg n'. getUnreadItems example_client ?n = (Inl (Error ''Invalid API response''), n') \<and>
      tool_get_unread example_client ?n = (Inl (McpError InternalError msg), n')"
    using getUnreadItems_batch_failure_aborts [OF p r0 len m r1, of example_client]
    by (auto simp: ok_def)
  let ?q0 = "example_response Missing (Some (join '','' many_ids))"
  let ?q1 = "example_response (Array [example_item ''7'' 4 0]) None"
  let ?bad = "Response \<lparr>status = 500, data = TextBody ''Internal Server Error''\<rparr>"
  let ?k = "\<lparr>pending = [ok (FeverBody ?q0), ok (FeverBody ?q1), ?bad], sent = []\<rparr>"
  have p': "pending ?k = ok (FeverBody ?q0) # [ok (FeverBody ?q1)] @ ?bad # []" by simp
  have q0: "fever_reply (ok (FeverBody ?q0)) = Some ?q0"
    by (rule fever_reply_ok) (simp_all add: example_response_def)
  have q1: "fever_reply (ok (FeverBody ?q1)) = Some ?q1"
    by (rule fever_reply_ok) (simp_all add: example_response_def)
  have bad: "fever_reply ?bad = None" by (simp add: fever_reply_def)
  have ids': "chunkArray (unreadIds (unread_item_ids ?q0)) 50 = [replicate 50 ''7'', [''7'']]"
    by (simp add: example_response_def example_many_ids example_many_chunks)
  have len': "length [ok (FeverBody ?q1)] < length (chunkArray (unreadIds (unread_item_ids ?q0)) 50)"
    by (simp only: ids') simp
  have m': "map fever_reply [ok (FeverBody ?q1)] = map Some [?q1]" using q1 by simp
  have second: "\<exists>msg msg' n'. getUnreadItems example_client ?k = (Inl (McpError InternalError msg), n') \<and>
      tool_get_unread example_client ?k = (Inl (McpError InternalError msg'), n')"
    using getUnreadItems_batch_failure_aborts [OF p' q0 len' m' bad, of example_client]
    by auto
  show ?thesis using first second by blast
qed


lemma concat_without:
  assumes "i < length xs" and "f (xs ! i) = []"
  shows "concat (map f xs) = concat (map f (take i xs @ drop (Suc i) xs))"
proof -
  have "xs = take i xs @ xs ! i # drop (Suc i) xs"
    using assms(1) by (rule id_take_nth_drop)
  then have "concat (map f xs) = concat (map f (take i xs @ xs ! i # drop (Suc i) xs))"
    by simp
  also have "\<dots> = concat (map f (take i xs @ drop (Suc i) xs))"
    using assms(2) by simp
  finally show ?thesis .
qed

text \<open>
  C10. A batch answer that has no \<^verbatim>\<open>items\<close> array (the field is missing, or holds a value
  that is not an array) adds nothing to the result and does not stop the run: the envelope
  returned is the one built from the answers to the other batches.
\<close>

theorem getUnreadItems_skips_batch_without_items:
  assumes "pending n = oc0 # ocs @ rest" and "fever_reply oc0 = Some r0"
    and "length ocs = length (chunkArray (unreadIds (unread_item_ids r0)) 50)"
    and "map fever_reply ocs = map Some rs"
    and "i < length rs" and "\<not> isArray (items (rs ! i))"
  shows "\<exists>env n'. getUnreadItems c n = (Inr env, n') \<and>
     items env = Array (filter (\<lambda>item. is_read item = 0)
                   (concat (map (\<lambda>r. elements (items r)) (take i rs @ drop (Suc i) rs)))) \<and>
     total_items env = Some (int (length (filter (\<lambda>item. is_read item = 0)
                   (concat (map (\<lambda>r. elements (items r)) (take i rs @ drop (Suc i) rs))))))"
proof -
  have "elements (items (rs ! i)) = []"
    using assms(6) by (cases "items (rs ! i)") simp_all
  then have "concat (map (\<lambda>r. elements (items r)) rs) =
      concat (map (\<lambda>r. elements (items r)) (take i rs @ drop (Suc i) rs))"
    using assms(5) by (intro concat_without)
  then show ?thesis
    using getUnreadItems_all_reply [OF assms(1-4), of c] by simp
qed

theorem getUnreadItems_skips_batch_without_items_witness:
  "\<exists>env n'.
     getUnreadItems example_client
       \<lparr>pending = [ok (FeverBody (example_response Missing (Some (join '','' many_ids)))),
                   ok (FeverBody (example_response (NotArray (NStr ''none'')) None)),
                   ok (FeverBody (example_response (Array [example_item ''7'' 4 0]) None))],
        sent = []\<rparr> = (Inr env, n') \<and>
     items env = Array [example_item ''7'' 4 0] \<and> total_items env = Some 1"
proof -
  let ?r0 = "example_response Missing (Some (join '','' many_ids))"
  let ?r1 = "example_response (NotArray (NStr ''none'')) None"
  let ?r2 = "example_response (Array [example_item ''7'' 4 0]) None"
  let ?n = "\<lparr>pending = [ok (FeverBody ?r0), ok (FeverBody ?r1), ok (FeverBody ?r2)], sent = []\<rparr>"
  have p: "pending ?n = ok (FeverBody ?r0) # [ok (FeverBody ?r1), ok (FeverBody ?r2)] @ []"
    by simp
  have r0: "fever_reply (ok (FeverBody ?r0)) = Some ?r0"
    by (rule fever_reply_ok) (simp_all add: example_response_def)
  have r1: "fever_reply (ok (FeverBody ?r1)) = Some ?r1"
    by (rule fever_reply_ok) (simp_all add: example_response_def)
  have r2: "fever_reply (ok (FeverBody ?r2)) = Some ?r2"
    by (rule fever_reply_ok) (simp_all add: example_response_def)
  have ids: "chunkArray (unreadIds (unread_item_ids ?r0)) 50 = [replicate 50 ''7'', [''7'']]"
    by (simp add: example_response_def example_many_ids example_many_chunks)
  have len: "length [ok (FeverBody ?r1), ok (FeverBody ?r2)] =
      length (chunkArray (unreadIds (unread_item_ids ?r0)) 50)"
    by (simp only: ids) simp
  have m: "map fever_reply [ok (FeverBody ?r1), ok (FeverBody ?r2)] = map Some [?r1, ?r2]"
    using r1 r2 by simp
  have i: "(0::nat) < length [?r1, ?r2]" by simp
  have na: "\<not> isArray (items ([?r1, ?r2] ! 0))" by (simp add: example_response_def)
  show ?thesis
    using getUnreadItems_skips_batch_without_items [OF p r0 len m i na, of example_client]
    by (simp add: example_response_def example_item_def)
qed

section \<open>The session of the Google Reader API\<close>

lemma authMatch_skip:
  "k \<le> length s \<Longrightarrow> \<forall>j<k. \<not> auth_at (drop j s) \<Longrightarrow> authMatch s = authMatch (drop k s)"
proof (induction s arbitrary: k)
  case Nil
  then show ?case by simp
next
  case (Cons c cs)
  show ?case
  proof (cases k)
    case 0
    then show ?thesis by simp
  next
    case (Suc k')
    have "\<not> auth_at (drop 0 (c # cs))" using Cons.prems(2) Suc by blast
    then have here: "authMatch (c # cs) = authMatch cs" by simp
    have all: "\<forall>j<k'. \<not> auth_at (drop j cs)"
    proof (intro allI impI)
      fix j assume "j < k'"
      then have "Suc j < k" using Suc by simp
      then have "\<not> auth_at (drop (Suc j) (c # cs))" using Cons.prems(2) by blast
      then show "\<not> auth_at (drop j cs)" by simp
    qed
    have "k' \<le> length cs" using Cons.prems(1) Suc by simp
    then have "authMatch cs = authMatch (drop k' cs)" using all by (rule Cons.IH)
    then show ?thesis using here Suc by simp
  qed
qed

lemma authMatch_none:
  assumes "\<forall>j<length s. \<not> auth_at (drop j s)" shows "authMatch s = None"
  using authMatch_skip [of "length s" s] assms by simp

lemma authMatch_here:
  assumes "tok \<noteq> []" and "\<forall>ch \<in> set tok. \<not> is_space ch" and "post = [] \<or> is_space (hd post)"
  shows "authMatch (''Auth='' @ tok @ post) = Some tok"
proof -
  have at: "auth_at (''Auth='' @ tok @ post)"
    using assms(1,2) by (cases tok) (simp_all add: auth_at_def)
  have "takeWhile (\<lambda>x. \<not> is_space x) (tok @ post) = tok"
  proof (cases post)
    case Nil
    then show ?thesis using assms(2) by simp
  next
    case (Cons p ps)
    then have "is_space p" using assms(3) by simp
    then show ?thesis using assms(2) Cons by (simp add: takeWhile_tail)
  qed
  then show ?thesis using at by simp
qed

lemma authMatch_first:
  assumes "tok \<noteq> []" and "\<forall>ch \<in> set tok. \<not> is_space ch" and "post = [] \<or> is_space (hd post)"
    and "\<forall>j<length pre. \<not> auth_at (drop j (pre @ ''Auth='' @ tok @ post))"
  shows "authMatch (pre @ ''Auth='' @ tok @ post) = Some tok"
proof -
  have "authMatch (pre @ ''Auth='' @ tok @ post) =
        authMatch (drop (length pre) (pre @ ''Auth='' @ tok @ post))"
    using assms(4) by (intro authMatch_skip) simp_all
  then show ?thesis using authMatch_here [OF assms(1-3)] by simp
qed

lemma no_marker_no_auth_at:
  assumes "\<forall>p q. body' \<noteq> p @ ''Auth='' @ q" shows "\<not> auth_at (drop j body')"
proof
  assume "auth_at (drop j body')"
  then have "take 5 (drop j body') = ''Auth=''" by (simp add: auth_at_def)
  then have "drop j body' = ''Auth='' @ drop 5 (drop j body')"
    by (metis append_take_drop_id)
  then have "body' = take j body' @ ''Auth='' @ drop 5 (drop j body')"
    by (metis append_take_drop_id)
  then show False using assms by blast
qed

lemma authMatch_no_space:
  "authMatch s = Some a \<Longrightarrow> a \<noteq> [] \<and> (\<forall>ch \<in> set a. \<not> is_space ch)"
proof (induction s)
  case Nil
  then show ?case by simp
next
  case (Cons c cs)
  show ?case
  proof (cases "auth_at (c # cs)")
    case True
    then have a: "a = takeWhile (\<lambda>x. \<not> is_space x) (drop 5 (c # cs))"
      using Cons.prems by simp
    have "drop 5 (c # cs) \<noteq> []" "\<not> is_space (hd (drop 5 (c # cs)))"
      using True by (simp_all add: auth_at_def)
    then have "a \<noteq> []" unfolding a by (cases "drop 5 (c # cs)") simp_all
    moreover have "\<forall>ch \<in> set a. \<not> is_space ch"
      unfolding a by (auto dest: set_takeWhileD)
    ultimately show ?thesis by simp
  next
    case False
    then show ?thesis using Cons by simp
  qed
qed

lemma trim_no_space:
  assumes "\<forall>ch \<in> set a. \<not> is_space ch" shows "trim a = a"
proof -
  have none: "dropWhile is_space u = u" if "\<forall>ch \<in> set u. \<not> is_space ch" for u
    using that by (cases u) simp_all
  have "dropWhile is_space a = a"
    using assms by (rule none)
  moreover have "dropWhile is_space (rev a) = rev a"
    using assms by (intro none) simp
  ultimately show ?thesis by (simp add: trim_def)
qed

lemma filter_trim:
  "filter (\<lambda>x. \<not> is_space x) (trim t) = filter (\<lambda>x. \<not> is_space x) t"
proof -
  have drop: "filter (\<lambda>x. \<not> is_space x) (dropWhile is_space u) = filter (\<lambda>x. \<not> is_space x) u" for u
    by (induction u) simp_all
  have "filter (\<lambda>x. \<not> is_space x) (trim t) =
        rev (filter (\<lambda>x. \<not> is_space x) (dropWhile is_space (rev (dropWhile is_space t))))"
    by (simp add: trim_def rev_filter)
  also have "\<dots> = rev (filter (\<lambda>x. \<not> is_space x) (rev (dropWhile is_space t)))"
    by (simp only: drop)
  also have "\<dots> = filter (\<lambda>x. \<not> is_space x) (dropWhile is_space t)"
    by (simp add: rev_filter)
  also have "\<dots> = filter (\<lambda>x. \<not> is_space x) t"
    by (simp only: drop)
  finally show ?thesis .
qed

lemma login_no_auth:
  assumes "pending n = Response lr # later" and "200 \<le> status lr \<and> status lr < 300"
    and "authMatch (String_body (data lr)) = None"
  shows "getGReaderAuthAndToken c n =
     (Inl (McpError InternalError ''FreshRSS Google Reader: no Auth token in login response''),
      \<lparr>pending = later, sent = sent n @ [login_config c (greader_base c)]\<rparr>)"
proof -
  have "axios (login_config c (greader_base c)) n =
      (Inr lr, \<lparr>pending = later, sent = sent n @ [login_config c (greader_base c)]\<rparr>)"
    using assms(1,2) by (simp add: axios_def)
  then show ?thesis
    using assms(3) by (simp add: getGReaderAuthAndToken_def Let_def)
qed

lemma session_flow:
  assumes "pending n = Response lr # Response tr # rest"
    and "200 \<le> status lr \<and> status lr < 300" and "200 \<le> status tr \<and> status tr < 300"
    and "authMatch (String_body (data lr)) = Some a" and "data tr = TextBody t"
  shows "getGReaderAuthAndToken c n =
     (if filter (\<lambda>x. \<not> is_space x) t = []
      then Inl (McpError InternalError ''FreshRSS Google Reader: no edit token returned'')
      else Inr \<lparr>authToken = a, editToken = filter (\<lambda>x. \<not> is_space x) t,
                 base = greader_base c\<rparr>,
      \<lparr>pending = rest,
       sent = sent n @ [login_config c (greader_base c), token_config (greader_base c) a]\<rparr>)"
proof -
  have login: "axios (login_config c (greader_base c)) n =
      (Inr lr, \<lparr>pending = Response tr # rest,
                sent = sent n @ [login_config c (greader_base c)]\<rparr>)"
    using assms(1,2) by (simp add: axios_def)
  have a: "trim a = a"
    using authMatch_no_space [OF assms(4)] by (simp add: trim_no_space)
  have token: "axios (token_config (greader_base c) a)
        \<lparr>pending = Response tr # rest, sent = sent n @ [login_config c (greader_base c)]\<rparr> =
      (Inr tr, \<lparr>pending = rest,
         sent = sent n @ [login_config c (greader_base c), token_config (greader_base c) a]\<rparr>)"
    using assms(3) by (simp add: axios_def)
  show ?thesis
    using login token assms(4,5) a
    by (simp add: getGReaderAuthAndToken_def data_trim_def filter_trim Let_def)
qed

text \<open>
  C5, as amended. The login step takes as auth token the run of characters that are not
  white space after the first place in the body where \<^verbatim>\<open>Auth=\<close> is followed by such a
  character, wherever in a line that place is. So when no such place comes before the
  marker \<^verbatim>\<open>Auth=<token>\<close> (and the token ends at white space or at the end of the body),
  the auth token of the session is the token of the marker. When the body has no place
  where \<^verbatim>\<open>Auth=\<close> is followed by a character that is not white space, in particular when
  \<^verbatim>\<open>Auth=\<close> does not occur in it, the login throws an \<^verbatim>\<open>McpError\<close> with code
  \<^verbatim>\<open>InternalError\<close> and no session is returned.
\<close>

theorem login_auth_token:
  assumes "pending n = Response \<lparr>status = st, data = TextBody body'\<rparr> # later"
    and "200 \<le> st \<and> st < 300"
  shows
    "(body' = pre @ ''Auth='' @ tok @ post \<and> tok \<noteq> [] \<and> (\<forall>ch \<in> set tok. \<not> is_space ch) \<and>
      (post = [] \<or> is_space (hd post)) \<and> (\<forall>j<length pre. \<not> auth_at (drop j body')) \<and>
      later = Response \<lparr>status = st', data = TextBody t\<rparr> # rest \<and> 200 \<le> st' \<and> st' < 300 \<and>
      filter (\<lambda>x. \<not> is_space x) t \<noteq> [] \<longrightarrow>
      getGReaderAuthAndToken c n =
        (Inr \<lparr>authToken = tok, editToken = filter (\<lambda>x. \<not> is_space x) t,
              base = greader_base c\<rparr>,
         \<lparr>pending = rest,
          sent = sent n @ [login_config c (greader_base c),
                           token_config (greader_base c) tok]\<rparr>)) \<and>
     ((\<forall>j<length body'. \<not> auth_at (drop j body')) \<longrightarrow>
      getGReaderAuthAndToken c n =
        (Inl (McpError InternalError ''FreshRSS Google Reader: no Auth token in login response''),
         \<lparr>pending = later, sent = sent n @ [login_config c (greader_base c)]\<rparr>)) \<and>
     ((\<forall>p q. body' \<noteq> p @ ''Auth='' @ q) \<longrightarrow>
      getGReaderAuthAndToken c n =
        (Inl (McpError InternalError ''FreshRSS Google Reader: no Auth token in login response''),
         \<lparr>pending = later, sent = sent n @ [login_config c (greader_base c)]\<rparr>))"
proof (intro conjI impI)
  assume h: "body' = pre @ ''Auth='' @ tok @ post \<and> tok \<noteq> [] \<and> (\<forall>ch \<in> set tok. \<not> is_space ch) \<and>
      (post = [] \<or> is_space (hd post)) \<and> (\<forall>j<length pre. \<not> auth_at (drop j body')) \<and>
      later = Response \<lparr>status = st', data = TextBody t\<rparr> # rest \<and> 200 \<le> st' \<and> st' < 300 \<and>
      filter (\<lambda>x. \<not> is_space x) t \<noteq> []"
  then have b: "body' = pre @ ''Auth='' @ tok @ post" and t1: "tok \<noteq> []"
    and t2: "\<forall>ch \<in> set tok. \<not> is_space ch" and t3: "post = [] \<or> is_space (hd post)"
    and t4: "\<forall>j<length pre. \<not> auth_at (drop j body')"
    by blast+
  have "authMatch (pre @ ''Auth='' @ tok @ post) = Some tok"
    using t1 t2 t3 t4 [unfolded b] by (rule authMatch_first)
  then have am: "authMatch (String_body (data \<lparr>status = st, data = TextBody body'\<rparr>)) = Some tok"
    using h by (simp add: String_body_def)
  have p: "pending n = Response \<lparr>status = st, data = TextBody body'\<rparr> #
      Response \<lparr>status = st', data = TextBody t\<rparr> # rest"
    using assms(1) h by simp
  show "getGReaderAuthAndToken c n =
        (Inr \<lparr>authToken = tok, editToken = filter (\<lambda>x. \<not> is_space x) t,
              base = greader_base c\<rparr>,
         \<lparr>pending = rest,
          sent = sent n @ [login_config c (greader_base c),
                           token_config (greader_base c) tok]\<rparr>)"
    using session_flow [OF p _ _ am, of t c] assms(2) h by simp
next
  assume "\<forall>j<length body'. \<not> auth_at (drop j body')"
  then have "authMatch body' = None" by (rule authMatch_none)
  then have am: "authMatch (String_body (data \<lparr>status = st, data = TextBody body'\<rparr>)) = None"
    by (simp add: String_body_def)
  have st: "200 \<le> status \<lparr>status = st, data = TextBody body'\<rparr> \<and>
      status \<lparr>status = st, data = TextBody body'\<rparr> < 300"
    using assms(2) by simp
  show "getGReaderAuthAndToken c n =
        (Inl (McpError InternalError ''FreshRSS Google Reader: no Auth token in login response''),
         \<lparr>pending = later, sent = sent n @ [login_config c (greader_base c)]\<rparr>)"
    using assms(1) st am by (rule login_no_auth)
next
  assume "\<forall>p q. body' \<noteq> p @ ''Auth='' @ q"
  then have "\<forall>j<length body'. \<not> auth_at (drop j body')"
    using no_marker_no_auth_at by blast
  then have "authMatch body' = None" by (rule authMatch_none)
  then have am: "authMatch (String_body (data \<lparr>status = st, data = TextBody body'\<rparr>)) = None"
    by (simp add: String_body_def)
  have st: "200 \<le> status \<lparr>status = st, data = TextBody body'\<rparr> \<and>
      status \<lparr>status = st, data = TextBody body'\<rparr> < 300"
    using assms(2) by simp
  show "getGReaderAuthAndToken c n =
        (Inl (McpError InternalError ''FreshRSS Google Reader: no Auth token in login response''),
         \<lparr>pending = later, sent = sent n @ [login_config c (greader_base c)]\<rparr>)"
    using assms(1) st am by (rule login_no_auth)
qed

text \<open>
  When the token endpoint's data is a string, the edit-token step does what C8 says.
  After a login that gave the auth token \<open>a\<close>, when the token endpoint answers with
  the text \<open>t\<close>: the edit token is \<open>t\<close> without any of its white space, at the ends or
  inside, and the session returned pairs it with \<open>a\<close>; when nothing is left of \<open>t\<close> without
  its white space, the step throws an \<^verbatim>\<open>McpError\<close> with code \<^verbatim>\<open>InternalError\<close>.
\<close>

theorem edit_token_trimmed:
  assumes "pending n = Response lr # Response \<lparr>status = st, data = TextBody t\<rparr> # rest"
    and "200 \<le> status lr \<and> status lr < 300" and "200 \<le> st \<and> st < 300"
    and "authMatch (String_body (data lr)) = Some a"
  shows
    "(filter (\<lambda>x. \<not> is_space x) t \<noteq> [] \<longrightarrow>
      getGReaderAuthAndToken c n =
        (Inr \<lparr>authToken = a, editToken = filter (\<lambda>x. \<not> is_space x) t,
              base = greader_base c\<rparr>,
         \<lparr>pending = rest,
          sent = sent n @ [login_config c (greader_base c),
                           token_config (greader_base c) a]\<rparr>)) \<and>
     (filter (\<lambda>x. \<not> is_space x) t = [] \<longrightarrow>
      getGReaderAuthAndToken c n =
        (Inl (McpError InternalError ''FreshRSS Google Reader: no edit token returned''),
         \<lparr>pending = rest,
          sent = sent n @ [login_config c (greader_base c),
                           token_config (greader_base c) a]\<rparr>))"
  using session_flow [OF assms(1,2) _ assms(4), of t c] assms(3) by simp

lemma example_no_earlier_auth:
  "\<forall>j<length (''SID=...'' @ [CHR 0x0A]). \<not> auth_at (drop j example_login_body)"
  by (simp add: example_login_body_def auth_at_def All_less_Suc eval_nat_numeral)

lemma example_no_auth: "\<forall>j<length ''SID=1''. \<not> auth_at (drop j ''SID=1'')"
  by (simp add: auth_at_def All_less_Suc eval_nat_numeral)

theorem login_auth_token_witness:
  "getGReaderAuthAndToken example_client
     \<lparr>pending = [ok (TextBody example_login_body), ok (TextBody ''57Z'')], sent = []\<rparr> =
   (Inr \<lparr>authToken = ''abc123'', editToken = ''57Z'', base = greader_base example_client\<rparr>,
    \<lparr>pending = [],
     sent = [login_config example_client (greader_base example_client),
             token_config (greader_base example_client) ''abc123'']\<rparr>) \<and>
   getGReaderAuthAndToken example_client
     \<lparr>pending = [ok (TextBody ''SID=1''), ok (TextBody ''57Z'')], sent = []\<rparr> =
   (Inl (McpError InternalError ''FreshRSS Google Reader: no Auth token in login response''),
    \<lparr>pending = [ok (TextBody ''57Z'')],
     sent = [login_config example_client (greader_base example_client)]\<rparr>)"
proof -
  let ?n1 = "\<lparr>pending = [ok (TextBody example_login_body), ok (TextBody ''57Z'')], sent = []\<rparr>"
  let ?n2 = "\<lparr>pending = [ok (TextBody ''SID=1''), ok (TextBody ''57Z'')], sent = []\<rparr>"
  have p1: "pending ?n1 = Response \<lparr>status = 200, data = TextBody example_login_body\<rparr> #
      [ok (TextBody ''57Z'')]"
    by (simp add: ok_def)
  have p2: "pending ?n2 = Response \<lparr>status = 200, data = TextBody ''SID=1''\<rparr> #
      [ok (TextBody ''57Z'')]"
    by (simp add: ok_def)
  have st: "(200::nat) \<le> 200 \<and> (200::nat) < 300" by simp
  have b: "example_login_body = (''SID=...'' @ [CHR 0x0A]) @ ''Auth='' @ ''abc123'' @ [CHR 0x0A]"
    by (simp add: example_login_body_def)
  have t: "\<forall>ch \<in> set ''abc123''. \<not> is_space ch" by (simp add: is_space_def)
  have sp: "is_space (hd [CHR 0x0A])" by (simp add: is_space_def)
  have e: "filter (\<lambda>x. \<not> is_space x) ''57Z'' = ''57Z''" by (simp add: is_space_def)
  have first: "getGReaderAuthAndToken example_client ?n1 =
     (Inr \<lparr>authToken = ''abc123'', editToken = ''57Z'', base = greader_base example_client\<rparr>,
      \<lparr>pending = [],
       sent = [login_config example_client (greader_base example_client),
               token_config (greader_base example_client) ''abc123'']\<rparr>)"
    using login_auth_token [OF p1 st, of "''SID=...'' @ [CHR 0x0A]" "''abc123''" "[CHR 0x0A]"
        200 "''57Z''" "[]" example_client]
      b t sp e example_no_earlier_auth
    by (simp add: ok_def)
  have second: "getGReaderAuthAndToken example_client ?n2 =
     (Inl (McpError InternalError ''FreshRSS Google Reader: no Auth token in login response''),
      \<lparr>pending = [ok (TextBody ''57Z'')],
       sent = [login_config example_client (greader_base example_client)]\<rparr>)"
    using login_auth_token [OF p2 st, of "[]" "[]" "[]" 200 "[]" "[]" example_client]
      example_no_auth
    by simp
  show ?thesis using first second by simp
qed

text \<open>
  C5 as stated fails: this body has the line \<^verbatim>\<open>Auth=abc123\<close>, and the auth token taken
  from it is \<^verbatim>\<open>x\<close>, found after the \<^verbatim>\<open>Auth=\<close> inside the line before.
\<close>

theorem login_auth_token_counterexample:
  "''Auth=abc123'' \<in> set (js_split (CHR 0x0A)
       (''SID=Auth=x'' @ [CHR 0x0A] @ ''Auth=abc123'' @ [CHR 0x0A])) \<and>
   fst (getGReaderAuthAndToken example_client
     \<lparr>pending = [ok (TextBody (''SID=Auth=x'' @ [CHR 0x0A] @ ''Auth=abc123'' @ [CHR 0x0A])),
                 ok (TextBody ''57Z'')],
      sent = []\<rparr>) =
   Inr \<lparr>authToken = ''x'', editToken = ''57Z'', base = greader_base example_client\<rparr>"
  by (simp add: js_split_def getGReaderAuthAndToken_def axios_def ok_def login_config_def
      token_config_def auth_at_def is_space_def trim_def data_trim_def String_body_def Let_def)

theorem edit_token_trimmed_witness:
  "getGReaderAuthAndToken example_client
     \<lparr>pending = [ok (TextBody example_login_body), ok (TextBody ('' 57 Z'' @ [CHR 0x0A]))],
      sent = []\<rparr> =
   (Inr \<lparr>authToken = ''abc123'', editToken = ''57Z'', base = greader_base example_client\<rparr>,
    \<lparr>pending = [],
     sent = [login_config example_client (greader_base example_client),
             token_config (greader_base example_client) ''abc123'']\<rparr>) \<and>
   getGReaderAuthAndToken example_client
     \<lparr>pending = [ok (TextBody example_login_body), ok (TextBody ('' '' @ [CHR 0x0A]))],
      sent = []\<rparr> =
   (Inl (McpError InternalError ''FreshRSS Google Reader: no edit token returned''),
    \<lparr>pending = [],
     sent = [login_config example_client (greader_base example_client),
             token_config (greader_base example_client) ''abc123'']\<rparr>)"
proof -
  let ?lr = "\<lparr>status = 200, data = TextBody example_login_body\<rparr>"
  let ?n1 = "\<lparr>pending = [ok (TextBody example_login_body),
                          ok (TextBody ('' 57 Z'' @ [CHR 0x0A]))], sent = []\<rparr>"
  let ?n2 = "\<lparr>pending = [ok (TextBody example_login_body),
                          ok (TextBody ('' '' @ [CHR 0x0A]))], sent = []\<rparr>"
  have p1: "pending ?n1 = Response ?lr #
      Response \<lparr>status = 200, data = TextBody ('' 57 Z'' @ [CHR 0x0A])\<rparr> # []"
    by (simp add: ok_def)
  have p2: "pending ?n2 = Response ?lr #
      Response \<lparr>status = 200, data = TextBody ('' '' @ [CHR 0x0A])\<rparr> # []"
    by (simp add: ok_def)
  have sl: "200 \<le> status ?lr \<and> status ?lr < 300" by simp
  have st: "(200::nat) \<le> 200 \<and> (200::nat) < 300" by simp
  have am: "authMatch (String_body (data ?lr)) = Some ''abc123''"
    by (simp add: String_body_def example_login_body_def auth_at_def is_space_def)
  have e1: "filter (\<lambda>x. \<not> is_space x) ('' 57 Z'' @ [CHR 0x0A]) = ''57Z''"
    by (simp add: is_space_def)
  have e2: "filter (\<lambda>x. \<not> is_space x) ('' '' @ [CHR 0x0A]) = []"
    by (simp add: is_space_def)
  show ?thesis
    using edit_token_trimmed [OF p1 sl st am, of example_client]
      edit_token_trimmed [OF p2 sl st am, of example_client] e1 e2
    by simp
qed

text \<open>
  C8 fails on the code when the token endpoint's body is one that axios parses as JSON.
  An edit token of digits only, \<^verbatim>\<open>12345\<close>, reaches the code as a number: \<^verbatim>\<open>.trim()\<close> is
  called before \<^verbatim>\<open>String()\<close>, the call throws a \<^verbatim>\<open>TypeError\<close>, and no session is
  returned, where the claim has the edit token \<^verbatim>\<open>12345\<close>. (The same token handed over as
  a string is accepted; the login step applies \<^verbatim>\<open>String()\<close> first.) The body \<^verbatim>\<open>null\<close> gives
  the failure for an empty body, though the body is not empty.
\<close>

theorem edit_token_numeric_body:
  "getGReaderAuthAndToken example_client
     \<lparr>pending = [ok (TextBody example_login_body), ok (JsonBody (JNum 12345))], sent = []\<rparr> =
   (Inl (TypeError ''tokenRes.data?.trim is not a function''),
    \<lparr>pending = [],
     sent = [login_config example_client (greader_base example_client),
             token_config (greader_base example_client) ''abc123'']\<rparr>) \<and>
   handler_catch (TypeError ''tokenRes.data?.trim is not a function'') =
     McpError InternalError ''TypeError: tokenRes.data?.trim is not a function'' \<and>
   fst (getGReaderAuthAndToken example_client
     \<lparr>pending = [ok (TextBody example_login_body), ok (JsonBody JNull)], sent = []\<rparr>) =
     Inl (McpError InternalError ''FreshRSS Google Reader: no edit token returned'') \<and>
   getGReaderAuthAndToken example_client
     \<lparr>pending = [ok (TextBody example_login_body), ok (TextBody ''12345'')], sent = []\<rparr> =
   (Inr \<lparr>authToken = ''abc123'', editToken = ''12345'', base = greader_base example_client\<rparr>,
    \<lparr>pending = [],
     sent = [login_config example_client (greader_base example_client),
             token_config (greader_base example_client) ''abc123'']\<rparr>)"
  by (simp add: getGReaderAuthAndToken_def axios_def ok_def login_config_def
      token_config_def auth_at_def is_space_def trim_def data_trim_def String_body_def Let_def
      example_login_body_def handler_catch_def String_error_def)

section \<open>Subscriptions and categories\<close>

lemma session_sent:
  assumes "getGReaderAuthAndToken c n = (Inr s, n1)"
  shows "sent n1 = sent n @ [login_config c (greader_base c),
                             token_config (greader_base c) (authToken s)] \<and>
         base s = greader_base c"
proof -
  obtain r1 m1 where a1: "axios (login_config c (greader_base c)) n = (r1, m1)"
    by (cases "axios (login_config c (greader_base c)) n")
  have s1: "sent m1 = sent n @ [login_config c (greader_base c)]"
    using a1 by (auto simp: axios_def Let_def split: list.splits outcome.splits if_splits)
  from assms a1 obtain loginRes where r1: "r1 = Inr loginRes"
    by (cases r1) (auto simp: getGReaderAuthAndToken_def Let_def)
  from assms a1 r1 obtain g where g: "authMatch (String_body (data loginRes)) = Some g"
    by (cases "authMatch (String_body (data loginRes))")
       (auto simp: getGReaderAuthAndToken_def Let_def)
  obtain r2 m2 where a2: "axios (token_config (greader_base c) (trim g)) m1 = (r2, m2)"
    by (cases "axios (token_config (greader_base c) (trim g)) m1")
  have s2: "sent m2 = sent m1 @ [token_config (greader_base c) (trim g)]"
    using a2 by (auto simp: axios_def Let_def split: list.splits outcome.splits if_splits)
  from assms a1 r1 g a2 obtain tokenRes where r2: "r2 = Inr tokenRes"
    by (cases r2) (auto simp: getGReaderAuthAndToken_def Let_def)
  from assms a1 r1 g a2 r2 have "n1 = m2 \<and> authToken s = trim g \<and> base s = greader_base c"
    by (auto simp: getGReaderAuthAndToken_def Let_def split: sum.splits if_splits)
  then show ?thesis using s1 s2 by simp
qed

lemma axios_any_status:
  assumes "pending n = Response r # rest" and "validateStatus_true config"
  shows "axios config n = (Inr r, \<lparr>pending = rest, sent = sent n @ [config]\<rparr>)"
  using assms by (simp add: axios_def)

lemma axios_2xx:
  assumes "pending n = Response r # rest" and "200 \<le> status r \<and> status r < 300"
  shows "axios config n = (Inr r, \<lparr>pending = rest, sent = sent n @ [config]\<rparr>)"
  using assms by (simp add: axios_def)

lemma axios_sent: "sent (snd (axios config n)) = sent n @ [config]"
  by (auto simp: axios_def Let_def split: list.splits outcome.splits)

lemma axios_no_response:
  assumes "pending n = NoResponse m # later"
  shows "axios config n = (Inl (AxiosError m None), \<lparr>pending = later, sent = sent n @ [config]\<rparr>)"
  using assms by (simp add: axios_def)

lemma axios_bad_status:
  assumes "pending n = Response r # later" and "\<not> validateStatus_true config"
    and "\<not> (200 \<le> status r \<and> status r < 300)"
  shows "axios config n =
     (Inl (AxiosError (''Request failed with status code '' @ show_nat (status r)) (Some r)),
      \<lparr>pending = later, sent = sent n @ [config]\<rparr>)"
  using assms by (simp add: axios_def Let_def)


lemma tags_some_iff:
  "JNull \<notin> set ts \<Longrightarrow>
   tags_some ts labelId = Inr (\<exists>t \<in> set ts. get_prop t ''id'' = Some (JStr labelId))"
  by (induction ts) auto

lemma error_msg_cases:
  "error_msg stringify (TextBody t) = JStr t"
  "map_of kvs ''error'' = Some e \<Longrightarrow> truthy e \<Longrightarrow>
     error_msg stringify (JsonBody (JObj kvs)) = e"
  "(\<forall>e. map_of kvs ''error'' = Some e \<longrightarrow> \<not> truthy e) \<Longrightarrow>
   map_of kvs ''message'' = Some m \<Longrightarrow> truthy m \<Longrightarrow>
     error_msg stringify (JsonBody (JObj kvs)) = m"
  "(\<forall>e. map_of kvs ''error'' = Some e \<longrightarrow> \<not> truthy e) \<Longrightarrow>
   (\<forall>m. map_of kvs ''message'' = Some m \<longrightarrow> \<not> truthy m) \<Longrightarrow>
     error_msg stringify (JsonBody (JObj kvs)) = JStr (stringify (JsonBody (JObj kvs)))"
  by (auto simp: error_msg_def body_prop_def js_or_def split: option.splits)

text \<open>
  C3. Once the session is there and the service answers the POST to
  \<^verbatim>\<open>subscription/edit\<close>, \<open>subscribeFeed\<close> returns a result and throws nothing, whatever the
  status. With status 200 and a text body that is \<^verbatim>\<open>OK\<close> after trimming, the result has
  no \<open>error\<close> (and \<open>numResults = 1\<close>); with status 200 and the JSON body
  \<^verbatim>\<open>{streamId: x, numResults: 1}\<close> it is \<^verbatim>\<open>{feedId: x, numResults: 1}\<close>. With any other
  status it is \<^verbatim>\<open>{error: msg}\<close> and nothing else, where \<open>msg\<close> is what the service sent: the
  body itself when the body is text; for an object, whatever its other keys, the value of
  \<^verbatim>\<open>error\<close> when that is truthy (a string that is not empty, for one), else the value of
  \<^verbatim>\<open>message\<close> when that is truthy, else the object written by \<^verbatim>\<open>JSON.stringify\<close>.
\<close>

theorem subscribeFeed_outcomes:
  assumes "getGReaderAuthAndToken c n = (Inr s, n1)" and "pending n1 = Response res # rest"
  shows
    "(status res = 200 \<and> data res = TextBody t \<and> trim t = ''OK'' \<longrightarrow>
        fst (subscribeFeed stringify c feedUrl categoryName n) =
          Inr \<lparr>feedId = None, feedTitle = None, numResults = Some (JNum 1), error = None\<rparr>) \<and>
     (status res = 200 \<and>
      data res = JsonBody (JObj [(''streamId'', JStr x), (''numResults'', JNum 1)]) \<longrightarrow>
        fst (subscribeFeed stringify c feedUrl categoryName n) =
          Inr \<lparr>feedId = Some (JStr x), feedTitle = None, numResults = Some (JNum 1),
               error = None\<rparr>) \<and>
     (status res \<noteq> 200 \<longrightarrow>
        fst (subscribeFeed stringify c feedUrl categoryName n) =
          Inr \<lparr>feedId = None, feedTitle = None, numResults = None,
               error = Some (error_msg stringify (data res))\<rparr>) \<and>
     (\<exists>r. fst (subscribeFeed stringify c feedUrl categoryName n) = Inr r) \<and>
     error_msg stringify (TextBody t) = JStr t \<and>
     (truthy e \<longrightarrow> error_msg stringify (JsonBody (JObj [(''error'', e)])) = e) \<and>
     (status res \<noteq> 200 \<and> data res = TextBody t \<longrightarrow>
        fst (subscribeFeed stringify c feedUrl categoryName n) =
          Inr \<lparr>feedId = None, feedTitle = None, numResults = None, error = Some (JStr t)\<rparr>) \<and>
     (status res \<noteq> 200 \<and> data res = JsonBody (JObj kvs) \<and>
      map_of kvs ''error'' = Some (JStr msg) \<and> msg \<noteq> [] \<longrightarrow>
        fst (subscribeFeed stringify c feedUrl categoryName n) =
          Inr \<lparr>feedId = None, feedTitle = None, numResults = None,
               error = Some (JStr msg)\<rparr>) \<and>
     (status res \<noteq> 200 \<and> data res = JsonBody (JObj kvs) \<and>
      map_of kvs ''error'' = Some e \<and> truthy e \<longrightarrow>
        fst (subscribeFeed stringify c feedUrl categoryName n) =
          Inr \<lparr>feedId = None, feedTitle = None, numResults = None, error = Some e\<rparr>) \<and>
     (status res \<noteq> 200 \<and> data res = JsonBody (JObj kvs) \<and>
      (\<forall>v. map_of kvs ''error'' = Some v \<longrightarrow> \<not> truthy v) \<and>
      map_of kvs ''message'' = Some m \<and> truthy m \<longrightarrow>
        fst (subscribeFeed stringify c feedUrl categoryName n) =
          Inr \<lparr>feedId = None, feedTitle = None, numResults = None, error = Some m\<rparr>) \<and>
     (status res \<noteq> 200 \<and> data res = JsonBody (JObj kvs) \<and>
      (\<forall>v. map_of kvs ''error'' = Some v \<longrightarrow> \<not> truthy v) \<and>
      (\<forall>v. map_of kvs ''message'' = Some v \<longrightarrow> \<not> truthy v) \<longrightarrow>
        fst (subscribeFeed stringify c feedUrl categoryName n) =
          Inr \<lparr>feedId = None, feedTitle = None, numResults = None,
               error = Some (JStr (stringify (JsonBody (JObj kvs))))\<rparr>) \<and>
     truthy (JStr ''duplicate'') \<and> \<not> truthy (JStr '''') \<and> \<not> truthy JNull \<and>
     \<not> truthy (JNum 0) \<and> \<not> truthy (JBool False)"
proof -
  have ax: "axios config n1 = (Inr res, \<lparr>pending = rest, sent = sent n1 @ [config]\<rparr>)"
    if "validateStatus_true config" for config
    using assms(2) that by (rule axios_any_status)
  have v: "validateStatus_true (subscription_edit_config s params True)" for params
    by (simp add: subscription_edit_config_def)
  have run: "fst (subscribeFeed stringify c feedUrl categoryName n) =
      (if status res \<noteq> 200
       then Inr \<lparr>feedId = None, feedTitle = None, numResults = None,
                 error = Some (error_msg stringify (data res))\<rparr>
       else if (case data res of TextBody t \<Rightarrow> trim t = ''OK'' | _ \<Rightarrow> False)
       then Inr \<lparr>feedId = None, feedTitle = None, numResults = Some (JNum 1), error = None\<rparr>
       else Inr \<lparr>feedId = nullish (body_prop (data res) ''streamId'') (body_prop (data res) ''feedId''),
                 feedTitle = nullish (body_prop (data res) ''streamName'')
                               (body_prop (data res) ''title''),
                 numResults = body_prop (data res) ''numResults'',
                 error = body_prop (data res) ''error''\<rparr>)"
    using assms(1) by (simp add: subscribeFeed_def Let_def ax [OF v])
  have c1: "status res = 200 \<and> data res = TextBody t \<and> trim t = ''OK'' \<longrightarrow>
        fst (subscribeFeed stringify c feedUrl categoryName n) =
          Inr \<lparr>feedId = None, feedTitle = None, numResults = Some (JNum 1), error = None\<rparr>"
    by (simp add: run)
  have c2: "status res = 200 \<and>
      data res = JsonBody (JObj [(''streamId'', JStr x), (''numResults'', JNum 1)]) \<longrightarrow>
        fst (subscribeFeed stringify c feedUrl categoryName n) =
          Inr \<lparr>feedId = Some (JStr x), feedTitle = None, numResults = Some (JNum 1),
               error = None\<rparr>"
    by (simp add: run body_prop_def nullish_def)
  have c3: "status res \<noteq> 200 \<longrightarrow>
        fst (subscribeFeed stringify c feedUrl categoryName n) =
          Inr \<lparr>feedId = None, feedTitle = None, numResults = None,
               error = Some (error_msg stringify (data res))\<rparr>"
    by (simp add: run)
  have c4: "\<exists>r. fst (subscribeFeed stringify c feedUrl categoryName n) = Inr r"
    by (simp add: run)
  have c5: "error_msg stringify (TextBody t) = JStr t"
    by (rule error_msg_cases(1))
  have c6: "truthy e \<longrightarrow> error_msg stringify (JsonBody (JObj [(''error'', e)])) = e"
    by (simp add: error_msg_cases(2))
  have c7: "status res \<noteq> 200 \<and> data res = TextBody t \<longrightarrow>
        fst (subscribeFeed stringify c feedUrl categoryName n) =
          Inr \<lparr>feedId = None, feedTitle = None, numResults = None, error = Some (JStr t)\<rparr>"
    by (simp add: run error_msg_cases(1))
  have c8: "status res \<noteq> 200 \<and> data res = JsonBody (JObj kvs) \<and>
      map_of kvs ''error'' = Some (JStr msg) \<and> msg \<noteq> [] \<longrightarrow>
        fst (subscribeFeed stringify c feedUrl categoryName n) =
          Inr \<lparr>feedId = None, feedTitle = None, numResults = None,
               error = Some (JStr msg)\<rparr>"
    by (simp add: run error_msg_cases(2))
  have c9: "status res \<noteq> 200 \<and> data res = JsonBody (JObj kvs) \<and>
      map_of kvs ''error'' = Some e \<and> truthy e \<longrightarrow>
        fst (subscribeFeed stringify c feedUrl categoryName n) =
          Inr \<lparr>feedId = None, feedTitle = None, numResults = None, error = Some e\<rparr>"
    by (simp add: run error_msg_cases(2))
  have c10: "status res \<noteq> 200 \<and> data res = JsonBody (JObj kvs) \<and>
      (\<forall>v. map_of kvs ''error'' = Some v \<longrightarrow> \<not> truthy v) \<and>
      map_of kvs ''message'' = Some m \<and> truthy m \<longrightarrow>
        fst (subscribeFeed stringify c feedUrl categoryName n) =
          Inr \<lparr>feedId = None, feedTitle = None, numResults = None, error = Some m\<rparr>"
    using error_msg_cases(3) [of kvs m stringify] by (simp add: run)
  have c11: "status res \<noteq> 200 \<and> data res = JsonBody (JObj kvs) \<and>
      (\<forall>v. map_of kvs ''error'' = Some v \<longrightarrow> \<not> truthy v) \<and>
      (\<forall>v. map_of kvs ''message'' = Some v \<longrightarrow> \<not> truthy v) \<longrightarrow>
        fst (subscribeFeed stringify c feedUrl categoryName n) =
          Inr \<lparr>feedId = None, feedTitle = None, numResults = None,
               error = Some (JStr (stringify (JsonBody (JObj kvs))))\<rparr>"
    using error_msg_cases(4) [of kvs stringify] by (simp add: run)
  have c12: "truthy (JStr ''duplicate'')" and c13: "\<not> truthy (JStr '''')"
    and c14: "\<not> truthy JNull" and c15: "\<not> truthy (JNum 0)" and c16: "\<not> truthy (JBool False)"
    by simp_all
  show ?thesis
    using c1 c2 c3 c4 c5 c6 c7 c8 c9 c10 c11 c12 c13 c14 c15 c16 by (intro conjI)
qed

lemma createCategory_present:
  assumes "getGReaderAuthAndToken c n = (Inr s, n1)" and "pending n1 = Response listRes # rest"
    and "200 \<le> status listRes \<and> status listRes < 300"
    and "nullish (body_prop (data listRes) ''tags'') (Some (JArr [])) = Some (JArr tags)"
    and "JNull \<notin> set tags"
    and "\<exists>t \<in> set tags. get_prop t ''id'' = Some (JStr (''user/-/label/'' @ categoryName))"
  shows "createCategory c categoryName n =
          (Inr \<lparr>created = False,
                message = ''Category '' @ [CHR 0x22] @ categoryName @ [CHR 0x22] @
                          '' already exists.''\<rparr>,
           \<lparr>pending = rest,
            sent = sent n @ [login_config c (greader_base c),
                             token_config (greader_base c) (authToken s),
                             tag_list_config s]\<rparr>)"
proof -
  have sn1: "sent n1 = sent n @ [login_config c (greader_base c),
                                 token_config (greader_base c) (authToken s)]"
    using session_sent [OF assms(1)] by simp
  have list: "axios (tag_list_config s) n1 =
      (Inr listRes, \<lparr>pending = rest, sent = sent n1 @ [tag_list_config s]\<rparr>)"
    using assms(2,3) by (rule axios_2xx)
  have ex: "tag_exists (data listRes) (''user/-/label/'' @ categoryName) =
      Inr (\<exists>t \<in> set tags. get_prop t ''id'' = Some (JStr (''user/-/label/'' @ categoryName)))"
    using assms(4) tags_some_iff [OF assms(5)] by (simp add: tag_exists_def)
  show ?thesis
    using assms(1,6) list ex sn1 by (simp add: createCategory_def Let_def)
qed

lemma createCategory_absent:
  assumes "getGReaderAuthAndToken c n = (Inr s, n1)" and "pending n1 = Response listRes # rest"
    and "200 \<le> status listRes \<and> status listRes < 300"
    and "nullish (body_prop (data listRes) ''tags'') (Some (JArr [])) = Some (JArr tags)"
    and "JNull \<notin> set tags"
    and "\<forall>t \<in> set tags. get_prop t ''id'' \<noteq> Some (JStr (''user/-/label/'' @ categoryName))"
  shows "createCategory c categoryName n =
      (case axios
         \<lparr>req_method = ''POST'', req_url = base s @ ''/reader/api/0/subscription/edit'',
          req_headers = [(''Authorization'', ''GoogleLogin auth='' @ authToken s),
                         (''Content-Type'', ''application/x-www-form-urlencoded'')],
          req_params = [],
          req_data = [(''ac'', ''subscribe''),
                      (''s'', ''feed/https://github.com/FreshRSS/FreshRSS/releases.atom''),
                      (''a'', ''user/-/label/'' @ categoryName), (''T'', editToken s)],
          validateStatus_true = False\<rparr>
         \<lparr>pending = rest,
          sent = sent n @ [login_config c (greader_base c),
                           token_config (greader_base c) (authToken s),
                           tag_list_config s]\<rparr> of
         (Inl err, n3) \<Rightarrow>
           (Inl (McpError InternalError
                   (''FreshRSS create category failed: '' @ catch_message err)), n3)
       | (Inr r, n3) \<Rightarrow>
           (Inr \<lparr>created = True,
                 message = ''Category '' @ [CHR 0x22] @ categoryName @ [CHR 0x22] @
                           '' created.''\<rparr>, n3))"
proof -
  have sn1: "sent n1 = sent n @ [login_config c (greader_base c),
                                 token_config (greader_base c) (authToken s)]"
    using session_sent [OF assms(1)] by simp
  have list: "axios (tag_list_config s) n1 =
      (Inr listRes, \<lparr>pending = rest, sent = sent n1 @ [tag_list_config s]\<rparr>)"
    using assms(2,3) by (rule axios_2xx)
  have ex: "tag_exists (data listRes) (''user/-/label/'' @ categoryName) =
      Inr (\<exists>t \<in> set tags. get_prop t ''id'' = Some (JStr (''user/-/label/'' @ categoryName)))"
    using assms(4) tags_some_iff [OF assms(5)] by (simp add: tag_exists_def)
  show ?thesis
    using assms(1,6) list ex sn1
    by (simp add: createCategory_def Let_def subscription_edit_config_def placeholderFeed_def)
qed

text \<open>
  C4, as amended. Once the session is there and the tag list has been fetched (an array
  of objects): when a tag has the id \<^verbatim>\<open>user/-/label/<categoryName>\<close>, \<open>createCategory\<close>
  returns \<^verbatim>\<open>{created: false}\<close> and the requests of the call are the login, the token
  request and the tag list request, none of them a subscribe request. When no tag has
  that id, the call sends one more request: a POST to \<^verbatim>\<open>subscription/edit\<close> with
  \<^verbatim>\<open>ac=subscribe\<close>, the placeholder feed as \<^verbatim>\<open>s\<close>, the label as \<^verbatim>\<open>a\<close> and the edit token as
  \<^verbatim>\<open>T\<close>. It returns \<^verbatim>\<open>{created: true}\<close> when the service answers that request with a
  status in 200..299; with another status, or with no response, it throws an \<^verbatim>\<open>McpError\<close>
  with code \<^verbatim>\<open>InternalError\<close> and returns nothing.
\<close>

theorem createCategory_idempotent:
  assumes "getGReaderAuthAndToken c n = (Inr s, n1)" and "pending n1 = Response listRes # rest"
    and "200 \<le> status listRes \<and> status listRes < 300"
    and "nullish (body_prop (data listRes) ''tags'') (Some (JArr [])) = Some (JArr tags)"
    and "JNull \<notin> set tags"
  shows
    "((\<exists>t \<in> set tags. get_prop t ''id'' = Some (JStr (''user/-/label/'' @ categoryName))) \<longrightarrow>
        createCategory c categoryName n =
          (Inr \<lparr>created = False,
                message = ''Category '' @ [CHR 0x22] @ categoryName @ [CHR 0x22] @
                          '' already exists.''\<rparr>,
           \<lparr>pending = rest,
            sent = sent n @ [login_config c (greader_base c),
                             token_config (greader_base c) (authToken s),
                             tag_list_config s]\<rparr>) \<and>
        (\<forall>r \<in> set [login_config c (greader_base c),
                     token_config (greader_base c) (authToken s), tag_list_config s].
           (''ac'', ''subscribe'') \<notin> set (req_data r)) \<and>
        map req_url [login_config c (greader_base c),
                     token_config (greader_base c) (authToken s), tag_list_config s] =
          [base s @ ''/accounts/ClientLogin'', base s @ ''/reader/api/0/token'',
           base s @ ''/reader/api/0/tag/list''] \<and>
        map req_method [login_config c (greader_base c),
                        token_config (greader_base c) (authToken s), tag_list_config s] =
          [''POST'', ''GET'', ''GET'']) \<and>
     ((\<forall>t \<in> set tags. get_prop t ''id'' \<noteq> Some (JStr (''user/-/label/'' @ categoryName))) \<longrightarrow>
        sent (snd (createCategory c categoryName n)) =
          sent n @ [login_config c (greader_base c),
                    token_config (greader_base c) (authToken s),
                    tag_list_config s,
                    \<lparr>req_method = ''POST'',
                     req_url = base s @ ''/reader/api/0/subscription/edit'',
                     req_headers = [(''Authorization'', ''GoogleLogin auth='' @ authToken s),
                                    (''Content-Type'', ''application/x-www-form-urlencoded'')],
                     req_params = [],
                     req_data = [(''ac'', ''subscribe''),
                                 (''s'', ''feed/https://github.com/FreshRSS/FreshRSS/releases.atom''),
                                 (''a'', ''user/-/label/'' @ categoryName),
                                 (''T'', editToken s)],
                     validateStatus_true = False\<rparr>] \<and>
        (\<forall>sr later. rest = Response sr # later \<and> 200 \<le> status sr \<and> status sr < 300 \<longrightarrow>
           fst (createCategory c categoryName n) =
             Inr \<lparr>created = True,
                  message = ''Category '' @ [CHR 0x22] @ categoryName @ [CHR 0x22] @
                            '' created.''\<rparr>) \<and>
        (\<forall>sr later. rest = Response sr # later \<and> \<not> (200 \<le> status sr \<and> status sr < 300) \<longrightarrow>
           (\<exists>msg. fst (createCategory c categoryName n) =
              Inl (McpError InternalError (''FreshRSS create category failed: '' @ msg)))) \<and>
        (\<forall>m later. rest = NoResponse m # later \<longrightarrow>
           fst (createCategory c categoryName n) =
             Inl (McpError InternalError (''FreshRSS create category failed: '' @ m))))"
proof -
  let ?label = "''user/-/label/'' @ categoryName"
  let ?sub = "\<lparr>req_method = ''POST'',
                     req_url = base s @ ''/reader/api/0/subscription/edit'',
                     req_headers = [(''Authorization'', ''GoogleLogin auth='' @ authToken s),
                                    (''Content-Type'', ''application/x-www-form-urlencoded'')],
                     req_params = [],
                     req_data = [(''ac'', ''subscribe''),
                                 (''s'', ''feed/https://github.com/FreshRSS/FreshRSS/releases.atom''),
                                 (''a'', ''user/-/label/'' @ categoryName),
                                 (''T'', editToken s)],
                     validateStatus_true = False\<rparr>"
  let ?three = "[login_config c (greader_base c),
                 token_config (greader_base c) (authToken s), tag_list_config s]"
  let ?n2 = "\<lparr>pending = rest, sent = sent n @ ?three\<rparr>"
  have b: "base s = greader_base c"
    using session_sent [OF assms(1)] by simp
  have no_sub: "\<forall>r \<in> set ?three. (''ac'', ''subscribe'') \<notin> set (req_data r)"
    by (simp add: login_config_def token_config_def tag_list_config_def)
  have urls: "map req_url ?three =
          [base s @ ''/accounts/ClientLogin'', base s @ ''/reader/api/0/token'',
           base s @ ''/reader/api/0/tag/list'']"
    by (simp add: login_config_def token_config_def tag_list_config_def b)
  have methods: "map req_method ?three = [''POST'', ''GET'', ''GET'']"
    by (simp add: login_config_def token_config_def tag_list_config_def)
  have present: "createCategory c categoryName n =
          (Inr \<lparr>created = False,
                message = ''Category '' @ [CHR 0x22] @ categoryName @ [CHR 0x22] @
                          '' already exists.''\<rparr>, ?n2)"
    if "\<exists>t \<in> set tags. get_prop t ''id'' = Some (JStr ?label)"
    using createCategory_present [OF assms that] by simp
  have absent: "createCategory c categoryName n =
      (case axios ?sub ?n2 of
         (Inl err, n3) \<Rightarrow>
           (Inl (McpError InternalError
                   (''FreshRSS create category failed: '' @ catch_message err)), n3)
       | (Inr r, n3) \<Rightarrow>
           (Inr \<lparr>created = True,
                 message = ''Category '' @ [CHR 0x22] @ categoryName @ [CHR 0x22] @
                           '' created.''\<rparr>, n3))"
    if "\<forall>t \<in> set tags. get_prop t ''id'' \<noteq> Some (JStr ?label)"
    using createCategory_absent [OF assms that] by simp
  have a: "sent (snd (createCategory c categoryName n)) = sent n @ ?three @ [?sub]"
    if "\<forall>t \<in> set tags. get_prop t ''id'' \<noteq> Some (JStr ?label)"
    using absent [OF that] axios_sent [of ?sub ?n2]
    by (cases "axios ?sub ?n2") (auto split: sum.splits)
  have ok2: "fst (createCategory c categoryName n) =
             Inr \<lparr>created = True,
                  message = ''Category '' @ [CHR 0x22] @ categoryName @ [CHR 0x22] @
                            '' created.''\<rparr>"
    if "\<forall>t \<in> set tags. get_prop t ''id'' \<noteq> Some (JStr ?label)"
      and "rest = Response sr # later" and "200 \<le> status sr \<and> status sr < 300" for sr later
  proof -
    have "pending ?n2 = Response sr # later" using that(2) by simp
    then have "axios ?sub ?n2 = (Inr sr, \<lparr>pending = later, sent = sent ?n2 @ [?sub]\<rparr>)"
      using that(3) by (rule axios_2xx)
    then show ?thesis using absent [OF that(1)] by simp
  qed
  have bad: "\<exists>msg. fst (createCategory c categoryName n) =
              Inl (McpError InternalError (''FreshRSS create category failed: '' @ msg))"
    if "\<forall>t \<in> set tags. get_prop t ''id'' \<noteq> Some (JStr ?label)"
      and "rest = Response sr # later" and "\<not> (200 \<le> status sr \<and> status sr < 300)" for sr later
  proof -
    have "pending ?n2 = Response sr # later" using that(2) by simp
    moreover have "\<not> validateStatus_true ?sub" by simp
    ultimately have "axios ?sub ?n2 =
        (Inl (AxiosError (''Request failed with status code '' @ show_nat (status sr)) (Some sr)),
         \<lparr>pending = later, sent = sent ?n2 @ [?sub]\<rparr>)"
      using that(3) by (rule axios_bad_status)
    then have "fst (createCategory c categoryName n) =
        Inl (McpError InternalError (''FreshRSS create category failed: '' @
          catch_message (AxiosError (''Request failed with status code '' @ show_nat (status sr))
             (Some sr))))"
      using absent [OF that(1)] by simp
    then show ?thesis by blast
  qed
  have none: "fst (createCategory c categoryName n) =
             Inl (McpError InternalError (''FreshRSS create category failed: '' @ m))"
    if "\<forall>t \<in> set tags. get_prop t ''id'' \<noteq> Some (JStr ?label)"
      and "rest = NoResponse m # later" for m later
  proof -
    have "pending ?n2 = NoResponse m # later" using that(2) by simp
    then have "axios ?sub ?n2 =
        (Inl (AxiosError m None), \<lparr>pending = later, sent = sent ?n2 @ [?sub]\<rparr>)"
      by (rule axios_no_response)
    then show ?thesis using absent [OF that(1)] by (simp add: catch_message_def)
  qed
  have first: "(\<exists>t \<in> set tags. get_prop t ''id'' = Some (JStr ?label)) \<longrightarrow>
        createCategory c categoryName n =
          (Inr \<lparr>created = False,
                message = ''Category '' @ [CHR 0x22] @ categoryName @ [CHR 0x22] @
                          '' already exists.''\<rparr>, ?n2) \<and>
        (\<forall>r \<in> set ?three. (''ac'', ''subscribe'') \<notin> set (req_data r)) \<and>
        map req_url ?three =
          [base s @ ''/accounts/ClientLogin'', base s @ ''/reader/api/0/token'',
           base s @ ''/reader/api/0/tag/list''] \<and>
        map req_method ?three = [''POST'', ''GET'', ''GET'']"
    using present no_sub urls methods by blast
  have second: "(\<forall>t \<in> set tags. get_prop t ''id'' \<noteq> Some (JStr ?label)) \<longrightarrow>
        sent (snd (createCategory c categoryName n)) = sent n @ ?three @ [?sub] \<and>
        (\<forall>sr later. rest = Response sr # later \<and> 200 \<le> status sr \<and> status sr < 300 \<longrightarrow>
           fst (createCategory c categoryName n) =
             Inr \<lparr>created = True,
                  message = ''Category '' @ [CHR 0x22] @ categoryName @ [CHR 0x22] @
                            '' created.''\<rparr>) \<and>
        (\<forall>sr later. rest = Response sr # later \<and> \<not> (200 \<le> status sr \<and> status sr < 300) \<longrightarrow>
           (\<exists>msg. fst (createCategory c categoryName n) =
              Inl (McpError InternalError (''FreshRSS create category failed: '' @ msg)))) \<and>
        (\<forall>m later. rest = NoResponse m # later \<longrightarrow>
           fst (createCategory c categoryName n) =
             Inl (McpError InternalError (''FreshRSS create category failed: '' @ m)))"
    using a ok2 bad none by blast
  show ?thesis
    using first second by simp
qed

lemma example_session_flow:
  "getGReaderAuthAndToken example_client
     \<lparr>pending = ok (TextBody example_login_body) # ok (TextBody ''57Z'') # rest, sent = []\<rparr> =
   (Inr example_session,
    \<lparr>pending = rest,
     sent = [login_config example_client (greader_base example_client),
             token_config (greader_base example_client) ''abc123'']\<rparr>)"
proof -
  let ?lr = "\<lparr>status = 200, data = TextBody example_login_body\<rparr>"
  let ?tr = "\<lparr>status = 200, data = TextBody ''57Z''\<rparr>"
  let ?n = "\<lparr>pending = ok (TextBody example_login_body) # ok (TextBody ''57Z'') # rest,
            sent = []\<rparr>"
  have p: "pending ?n = Response ?lr # Response ?tr # rest" by (simp add: ok_def)
  have am: "authMatch (String_body (data ?lr)) = Some ''abc123''"
    by (simp add: String_body_def example_login_body_def auth_at_def is_space_def)
  have e: "filter (\<lambda>x. \<not> is_space x) ''57Z'' = ''57Z''" by (simp add: is_space_def)
  show ?thesis
    using session_flow [OF p _ _ am, of "''57Z''" example_client] e
    by (simp add: example_session_def)
qed

theorem subscribeFeed_outcomes_witness:
  "fst (subscribeFeed (\<lambda>b. ''{}'') example_client ''http://example.org/feed.xml'' (Some ''AI'')
     \<lparr>pending = [ok (TextBody example_login_body), ok (TextBody ''57Z''),
                 Response \<lparr>status = 400,
                           data = JsonBody (JObj [(''error'', JStr ''duplicate'')])\<rparr>],
      sent = []\<rparr>) =
     Inr \<lparr>feedId = None, feedTitle = None, numResults = None,
          error = Some (JStr ''duplicate'')\<rparr> \<and>
   fst (subscribeFeed (\<lambda>b. ''{}'') example_client ''http://example.org/feed.xml'' (Some ''AI'')
     \<lparr>pending = [ok (TextBody example_login_body), ok (TextBody ''57Z''),
                 Response \<lparr>status = 200, data = TextBody ''OK''\<rparr>],
      sent = []\<rparr>) =
     Inr \<lparr>feedId = None, feedTitle = None, numResults = Some (JNum 1), error = None\<rparr> \<and>
   fst (subscribeFeed (\<lambda>b. ''{}'') example_client ''http://example.org/feed.xml'' None
     \<lparr>pending = [ok (TextBody example_login_body), ok (TextBody ''57Z''),
                 Response \<lparr>status = 200,
                   data = JsonBody (JObj [(''streamId'', JStr ''x''), (''numResults'', JNum 1)])\<rparr>],
      sent = []\<rparr>) =
     Inr \<lparr>feedId = Some (JStr ''x''), feedTitle = None, numResults = Some (JNum 1),
          error = None\<rparr> \<and>
   fst (subscribeFeed (\<lambda>b. ''{}'') example_client ''http://example.org/feed.xml'' None
     \<lparr>pending = [ok (TextBody example_login_body), ok (TextBody ''57Z''),
                 Response \<lparr>status = 409,
                   data = JsonBody (JObj [(''error'', JStr ''duplicate''), (''code'', JNum 409)])\<rparr>],
      sent = []\<rparr>) =
     Inr \<lparr>feedId = None, feedTitle = None, numResults = None,
          error = Some (JStr ''duplicate'')\<rparr> \<and>
   fst (subscribeFeed (\<lambda>b. ''{}'') example_client ''http://example.org/feed.xml'' None
     \<lparr>pending = [ok (TextBody example_login_body), ok (TextBody ''57Z''),
                 Response \<lparr>status = 500,
                   data = JsonBody (JObj [(''error'', JStr ''''), (''message'', JStr ''m'')])\<rparr>],
      sent = []\<rparr>) =
     Inr \<lparr>feedId = None, feedTitle = None, numResults = None, error = Some (JStr ''m'')\<rparr> \<and>
   fst (subscribeFeed (\<lambda>b. ''{}'') example_client ''http://example.org/feed.xml'' None
     \<lparr>pending = [ok (TextBody example_login_body), ok (TextBody ''57Z''),
                 Response \<lparr>status = 502, data = TextBody ''Bad Gateway''\<rparr>],
      sent = []\<rparr>) =
     Inr \<lparr>feedId = None, feedTitle = None, numResults = None,
          error = Some (JStr ''Bad Gateway'')\<rparr> \<and>
   fst (subscribeFeed (\<lambda>b. ''{}'') example_client ''http://example.org/feed.xml'' None
     \<lparr>pending = [ok (TextBody example_login_body), ok (TextBody ''57Z''),
                 Response \<lparr>status = 500, data = JsonBody (JObj [])\<rparr>],
      sent = []\<rparr>) =
     Inr \<lparr>feedId = None, feedTitle = None, numResults = None, error = Some (JStr ''{}'')\<rparr>"
proof -
  let ?n1 = "\<lambda>rest. \<lparr>pending = rest,
     sent = [login_config example_client (greader_base example_client),
             token_config (greader_base example_client) ''abc123'']\<rparr>"
  let ?dup = "\<lparr>status = 400, data = JsonBody (JObj [(''error'', JStr ''duplicate'')])\<rparr>"
  let ?okr = "\<lparr>status = 200, data = TextBody ''OK''\<rparr>"
  let ?js = "\<lparr>status = 200,
     data = JsonBody (JObj [(''streamId'', JStr ''x''), (''numResults'', JNum 1)])\<rparr>"
  let ?dup2 = "\<lparr>status = 409,
     data = JsonBody (JObj [(''error'', JStr ''duplicate''), (''code'', JNum 409)])\<rparr>"
  let ?msg = "\<lparr>status = 500,
     data = JsonBody (JObj [(''error'', JStr ''''), (''message'', JStr ''m'')])\<rparr>"
  let ?txt = "\<lparr>status = 502, data = TextBody ''Bad Gateway''\<rparr>"
  let ?emp = "\<lparr>status = 500, data = JsonBody (JObj [])\<rparr>"
  have p1: "pending (?n1 [Response ?dup]) = Response ?dup # []" by simp
  have p2: "pending (?n1 [Response ?okr]) = Response ?okr # []" by simp
  have p3: "pending (?n1 [Response ?js]) = Response ?js # []" by simp
  have p4: "pending (?n1 [Response ?dup2]) = Response ?dup2 # []" by simp
  have p5: "pending (?n1 [Response ?msg]) = Response ?msg # []" by simp
  have p6: "pending (?n1 [Response ?txt]) = Response ?txt # []" by simp
  have p7: "pending (?n1 [Response ?emp]) = Response ?emp # []" by simp
  have tr: "trim ''OK'' = ''OK''" by (simp add: trim_def is_space_def)
  have r1: "fst (subscribeFeed (\<lambda>b. ''{}'') example_client ''http://example.org/feed.xml''
      (Some ''AI'') (\<lparr>pending = ok (TextBody example_login_body) # ok (TextBody ''57Z'') #
        [Response ?dup], sent = []\<rparr>)) =
     Inr \<lparr>feedId = None, feedTitle = None, numResults = None,
          error = Some (JStr ''duplicate'')\<rparr>"
    using subscribeFeed_outcomes [OF example_session_flow p1,
        where stringify = "\<lambda>b. ''{}''" and feedUrl = "''http://example.org/feed.xml''"
          and categoryName = "Some ''AI''" and kvs = "[(''error'', JStr ''duplicate'')]"
          and msg = "''duplicate''"]
    by (simp add: error_msg_def body_prop_def js_or_def)
  have r2: "fst (subscribeFeed (\<lambda>b. ''{}'') example_client ''http://example.org/feed.xml''
      (Some ''AI'') (\<lparr>pending = ok (TextBody example_login_body) # ok (TextBody ''57Z'') #
        [Response ?okr], sent = []\<rparr>)) =
     Inr \<lparr>feedId = None, feedTitle = None, numResults = Some (JNum 1), error = None\<rparr>"
    using subscribeFeed_outcomes [OF example_session_flow p2,
        where stringify = "\<lambda>b. ''{}''" and feedUrl = "''http://example.org/feed.xml''"
          and categoryName = "Some ''AI''" and t = "''OK''"] tr
    by (simp add: error_msg_def body_prop_def js_or_def)
  have r3: "fst (subscribeFeed (\<lambda>b. ''{}'') example_client ''http://example.org/feed.xml''
      None (\<lparr>pending = ok (TextBody example_login_body) # ok (TextBody ''57Z'') #
        [Response ?js], sent = []\<rparr>)) =
     Inr \<lparr>feedId = Some (JStr ''x''), feedTitle = None, numResults = Some (JNum 1),
          error = None\<rparr>"
    using subscribeFeed_outcomes [OF example_session_flow p3,
        where stringify = "\<lambda>b. ''{}''" and feedUrl = "''http://example.org/feed.xml''"
          and categoryName = None and x = "''x''"]
    by (simp add: error_msg_def body_prop_def js_or_def)
  have r4: "fst (subscribeFeed (\<lambda>b. ''{}'') example_client ''http://example.org/feed.xml''
      None (\<lparr>pending = ok (TextBody example_login_body) # ok (TextBody ''57Z'') #
        [Response ?dup2], sent = []\<rparr>)) =
     Inr \<lparr>feedId = None, feedTitle = None, numResults = None,
          error = Some (JStr ''duplicate'')\<rparr>"
    using subscribeFeed_outcomes [OF example_session_flow p4,
        where stringify = "\<lambda>b. ''{}''" and feedUrl = "''http://example.org/feed.xml''"
          and categoryName = None
          and kvs = "[(''error'', JStr ''duplicate''), (''code'', JNum 409)]"
          and msg = "''duplicate''"]
    by (simp add: error_msg_def body_prop_def js_or_def)
  have r5: "fst (subscribeFeed (\<lambda>b. ''{}'') example_client ''http://example.org/feed.xml''
      None (\<lparr>pending = ok (TextBody example_login_body) # ok (TextBody ''57Z'') #
        [Response ?msg], sent = []\<rparr>)) =
     Inr \<lparr>feedId = None, feedTitle = None, numResults = None, error = Some (JStr ''m'')\<rparr>"
    using subscribeFeed_outcomes [OF example_session_flow p5,
        where stringify = "\<lambda>b. ''{}''" and feedUrl = "''http://example.org/feed.xml''"
          and categoryName = None
          and kvs = "[(''error'', JStr ''''), (''message'', JStr ''m'')]"
          and m = "JStr ''m''"]
    by (simp add: error_msg_def body_prop_def js_or_def)
  have r6: "fst (subscribeFeed (\<lambda>b. ''{}'') example_client ''http://example.org/feed.xml''
      None (\<lparr>pending = ok (TextBody example_login_body) # ok (TextBody ''57Z'') #
        [Response ?txt], sent = []\<rparr>)) =
     Inr \<lparr>feedId = None, feedTitle = None, numResults = None,
          error = Some (JStr ''Bad Gateway'')\<rparr>"
    using subscribeFeed_outcomes [OF example_session_flow p6,
        where stringify = "\<lambda>b. ''{}''" and feedUrl = "''http://example.org/feed.xml''"
          and categoryName = None and t = "''Bad Gateway''"]
    by (simp add: error_msg_def body_prop_def js_or_def)
  have r7: "fst (subscribeFeed (\<lambda>b. ''{}'') example_client ''http://example.org/feed.xml''
      None (\<lparr>pending = ok (TextBody example_login_body) # ok (TextBody ''57Z'') #
        [Response ?emp], sent = []\<rparr>)) =
     Inr \<lparr>feedId = None, feedTitle = None, numResults = None, error = Some (JStr ''{}'')\<rparr>"
    using subscribeFeed_outcomes [OF example_session_flow p7,
        where stringify = "\<lambda>b. ''{}''" and feedUrl = "''http://example.org/feed.xml''"
          and categoryName = None and kvs = "[]"]
    by (simp add: error_msg_def body_prop_def js_or_def)
  show ?thesis
    using r1 r2 r3 r4 r5 r6 r7 by (simp add: ok_def)
qed

text \<open>
  C4 as stated fails: the tag list has no tag \<^verbatim>\<open>user/-/label/AI\<close>, the service answers the
  subscribe request with status 500, and \<open>createCategory\<close> throws where the claim has it
  return \<^verbatim>\<open>{created: true}\<close>.
\<close>

theorem createCategory_idempotent_counterexample:
  "fst (createCategory example_client ''AI''
     \<lparr>pending = [ok (TextBody example_login_body), ok (TextBody ''57Z''),
                 ok (JsonBody (JObj [(''tags'',
                   JArr [JObj [(''id'', JStr ''user/-/state/com.google/starred'')]])])),
                 Response \<lparr>status = 500, data = TextBody ''Internal Server Error''\<rparr>],
      sent = []\<rparr>) =
     Inl (McpError InternalError ''FreshRSS create category failed: Internal Server Error'')"
proof -
  let ?n1 = "\<lambda>rest. \<lparr>pending = rest,
     sent = [login_config example_client (greader_base example_client),
             token_config (greader_base example_client) ''abc123'']\<rparr>"
  let ?without = "[JObj [(''id'', JStr ''user/-/state/com.google/starred'')]]"
  let ?l2 = "\<lparr>status = 200, data = JsonBody (JObj [(''tags'', JArr ?without)])\<rparr>"
  let ?bad = "Response \<lparr>status = 500, data = TextBody ''Internal Server Error''\<rparr>"
  have p2: "pending (?n1 [Response ?l2, ?bad]) = Response ?l2 # [?bad]" by simp
  have s2: "200 \<le> status ?l2 \<and> status ?l2 < 300" by simp
  have t2: "nullish (body_prop (data ?l2) ''tags'') (Some (JArr [])) = Some (JArr ?without)"
    by (simp add: nullish_def body_prop_def)
  have n2: "JNull \<notin> set ?without" by simp
  have a2: "\<forall>t \<in> set ?without. get_prop t ''id'' \<noteq> Some (JStr (''user/-/label/'' @ ''AI''))"
    by simp
  show ?thesis
    using createCategory_absent [OF example_session_flow p2 s2 t2 n2 a2]
    by (simp add: ok_def axios_def catch_message_def body_truthy_def String_body_def)
qed

theorem createCategory_idempotent_witness:
  "createCategory example_client ''AI''
     \<lparr>pending = [ok (TextBody example_login_body), ok (TextBody ''57Z''),
                 ok (JsonBody (JObj [(''tags'',
                   JArr [JObj [(''id'', JStr ''user/-/state/com.google/starred'')],
                         JObj [(''id'', JStr ''user/-/label/AI''), (''type'', JStr ''folder'')]])]))],
      sent = []\<rparr> =
     (Inr \<lparr>created = False,
           message = ''Category '' @ [CHR 0x22] @ ''AI'' @ [CHR 0x22] @ '' already exists.''\<rparr>,
      \<lparr>pending = [],
       sent = [login_config example_client (greader_base example_client),
               token_config (greader_base example_client) ''abc123'',
               tag_list_config example_session]\<rparr>) \<and>
   fst (createCategory example_client ''AI''
     \<lparr>pending = [ok (TextBody example_login_body), ok (TextBody ''57Z''),
                 ok (JsonBody (JObj [(''tags'',
                   JArr [JObj [(''id'', JStr ''user/-/state/com.google/starred'')]])])),
                 ok (TextBody ''OK'')],
      sent = []\<rparr>) =
     Inr \<lparr>created = True,
          message = ''Category '' @ [CHR 0x22] @ ''AI'' @ [CHR 0x22] @ '' created.''\<rparr> \<and>
   sent (snd (createCategory example_client ''AI''
     \<lparr>pending = [ok (TextBody example_login_body), ok (TextBody ''57Z''),
                 ok (JsonBody (JObj [(''tags'',
                   JArr [JObj [(''id'', JStr ''user/-/state/com.google/starred'')]])])),
                 ok (TextBody ''OK'')],
      sent = []\<rparr>)) =
     [login_config example_client (greader_base example_client),
      token_config (greader_base example_client) ''abc123'',
      tag_list_config example_session,
      \<lparr>req_method = ''POST'',
       req_url = ''http://rss.example.org/api/greader.php/reader/api/0/subscription/edit'',
       req_headers = [(''Authorization'', ''GoogleLogin auth=abc123''),
                      (''Content-Type'', ''application/x-www-form-urlencoded'')],
       req_params = [],
       req_data = [(''ac'', ''subscribe''),
                   (''s'', ''feed/https://github.com/FreshRSS/FreshRSS/releases.atom''),
                   (''a'', ''user/-/label/AI''), (''T'', ''57Z'')],
       validateStatus_true = False\<rparr>] \<and>
   (\<exists>msg. fst (createCategory example_client ''AI''
     \<lparr>pending = [ok (TextBody example_login_body), ok (TextBody ''57Z''),
                 ok (JsonBody (JObj [(''tags'',
                   JArr [JObj [(''id'', JStr ''user/-/state/com.google/starred'')]])])),
                 Response \<lparr>status = 500, data = TextBody ''Internal Server Error''\<rparr>],
      sent = []\<rparr>) =
     Inl (McpError InternalError (''FreshRSS create category failed: '' @ msg)))"
proof -
  let ?n1 = "\<lambda>rest. \<lparr>pending = rest,
     sent = [login_config example_client (greader_base example_client),
             token_config (greader_base example_client) ''abc123'']\<rparr>"
  let ?with = "[JObj [(''id'', JStr ''user/-/state/com.google/starred'')],
                JObj [(''id'', JStr ''user/-/label/AI''), (''type'', JStr ''folder'')]]"
  let ?without = "[JObj [(''id'', JStr ''user/-/state/com.google/starred'')]]"
  let ?l1 = "\<lparr>status = 200, data = JsonBody (JObj [(''tags'', JArr ?with)])\<rparr>"
  let ?l2 = "\<lparr>status = 200, data = JsonBody (JObj [(''tags'', JArr ?without)])\<rparr>"
  let ?bad = "Response \<lparr>status = 500, data = TextBody ''Internal Server Error''\<rparr>"
  have p1: "pending (?n1 [Response ?l1]) = Response ?l1 # []" by simp
  have p2: "pending (?n1 [Response ?l2, ok (TextBody ''OK'')]) =
      Response ?l2 # [ok (TextBody ''OK'')]" by simp
  have p3: "pending (?n1 [Response ?l2, ?bad]) = Response ?l2 # [?bad]" by simp
  have s1: "200 \<le> status ?l1 \<and> status ?l1 < 300" by simp
  have s2: "200 \<le> status ?l2 \<and> status ?l2 < 300" by simp
  have t1: "nullish (body_prop (data ?l1) ''tags'') (Some (JArr [])) = Some (JArr ?with)"
    by (simp add: nullish_def body_prop_def)
  have t2: "nullish (body_prop (data ?l2) ''tags'') (Some (JArr [])) = Some (JArr ?without)"
    by (simp add: nullish_def body_prop_def)
  have n1: "JNull \<notin> set ?with" by simp
  have n2: "JNull \<notin> set ?without" by simp
  have base: "greader_base example_client = ''http://rss.example.org/api/greader.php''"
    by (simp add: greader_base_def example_client_def strip_slash_def)
  have r1: "createCategory example_client ''AI''
      \<lparr>pending = ok (TextBody example_login_body) # ok (TextBody ''57Z'') # [Response ?l1],
       sent = []\<rparr> =
     (Inr \<lparr>created = False,
           message = ''Category '' @ [CHR 0x22] @ ''AI'' @ [CHR 0x22] @ '' already exists.''\<rparr>,
      \<lparr>pending = [],
       sent = [login_config example_client (greader_base example_client),
               token_config (greader_base example_client) ''abc123'',
               tag_list_config example_session]\<rparr>)"
    using createCategory_idempotent [OF example_session_flow p1 s1 t1 n1, of "''AI''"]
    by (simp add: example_session_def)
  have r2: "fst (createCategory example_client ''AI''
      \<lparr>pending = ok (TextBody example_login_body) # ok (TextBody ''57Z'') #
         [Response ?l2, ok (TextBody ''OK'')], sent = []\<rparr>) =
     Inr \<lparr>created = True,
          message = ''Category '' @ [CHR 0x22] @ ''AI'' @ [CHR 0x22] @ '' created.''\<rparr> \<and>
     sent (snd (createCategory example_client ''AI''
      \<lparr>pending = ok (TextBody example_login_body) # ok (TextBody ''57Z'') #
         [Response ?l2, ok (TextBody ''OK'')], sent = []\<rparr>)) =
     [login_config example_client (greader_base example_client),
      token_config (greader_base example_client) ''abc123'',
      tag_list_config example_session,
      \<lparr>req_method = ''POST'',
       req_url = ''http://rss.example.org/api/greader.php/reader/api/0/subscription/edit'',
       req_headers = [(''Authorization'', ''GoogleLogin auth=abc123''),
                      (''Content-Type'', ''application/x-www-form-urlencoded'')],
       req_params = [],
       req_data = [(''ac'', ''subscribe''),
                   (''s'', ''feed/https://github.com/FreshRSS/FreshRSS/releases.atom''),
                   (''a'', ''user/-/label/AI''), (''T'', ''57Z'')],
       validateStatus_true = False\<rparr>]"
    using createCategory_idempotent [OF example_session_flow p2 s2 t2 n2, of "''AI''"]
    by (simp add: ok_def example_session_def base)
  have r3: "\<exists>msg. fst (createCategory example_client ''AI''
      \<lparr>pending = ok (TextBody example_login_body) # ok (TextBody ''57Z'') #
         [Response ?l2, ?bad], sent = []\<rparr>) =
     Inl (McpError InternalError (''FreshRSS create category failed: '' @ msg))"
    using createCategory_idempotent [OF example_session_flow p3 s2 t2 n2, of "''AI''"]
    by simp
  show ?thesis
    using r1 r2 r3 by (simp add: ok_def)
qed


end
